theory Spec2Isabelle
  imports Main "HOL-Library.Sublist" "HOL-Library.AList"
begin

section \<open>Data model of \<^verbatim>\<open>setup.py\<close>\<close>

text \<open>
  A \<^verbatim>\<open>pathlib.Path\<close> is the list of its segments. Full paths (the configs
  root, the target root, source and target files) are absolute, relative paths are what
  \<^verbatim>\<open>relative_to\<close> returns. File contents are byte strings.
\<close>

type_synonym path = "string list"

abbreviation LF :: char where "LF \<equiv> CHR 0x0A"
abbreviation CR :: char where "CR \<equiv> CHR 0x0D"
abbreviation DQ :: char where "DQ \<equiv> CHR 0x22"

datatype policy = APPEND | OVERWRITE | PREPEND_SOURCE_STATEMENT

datatype error =
    FileNotFoundError | IsADirectoryError | NotADirectoryError | FileExistsError
  | DirectoryNotEmpty | InvalidArgument | PermissionError | UnicodeDecodeError
  | ValueError | KeyError | IndexError | EOFError

datatype node = File string | Dir

text \<open>One entry of the sync state: the JSON object with the keys \<^verbatim>\<open>hash\<close>,
  \<^verbatim>\<open>last sync timestamp\<close> and \<^verbatim>\<open>sync reason\<close>. The state maps
  \<^verbatim>\<open>str(source_path)\<close> to its entry.\<close>

type_synonym entry = "string \<rightharpoonup> string"
type_synonym sync_state_t = "string \<rightharpoonup> entry"

text \<open>
  The world outside the process: the file tree (\<open>nodes\<close>, the table of the paths
  that exist, each a regular file with its content or a directory), the paths whose
  \<^verbatim>\<open>open\<close> is refused by the operating system (\<open>denied\<close>), the parsed
  content of the state file (\<open>state_file\<close>, \<open>None\<close> when the file is absent; it
  lives at \<^verbatim>\<open>state_file_path\<close>, outside the tree that \<open>nodes\<close> describes),
  and the operator's pending answers to \<^verbatim>\<open>_prompt_for_confirmation\<close>
  (\<open>stdin\<close>, each already reduced to \<^verbatim>\<open>response in ["y", "yes"]\<close>).
\<close>

record world =
  nodes :: "(path \<times> node) list"
  denied :: "path set"
  state_file :: "sync_state_t option"
  stdin :: "bool list"

text \<open>The fields of \<^verbatim>\<open>ConfigSyncer\<close>.\<close>

record syncer =
  target_dir_path :: path
  configs_dir_path :: path
  sync_state :: sync_state_t
  exclude_patterns :: "string list"
  default_policy :: policy
  specific_policies :: "string \<rightharpoonup> policy"

text \<open>A statement that can raise: its result, \<open>Inl\<close> for the exception, and the world
  it leaves behind. What the program prints is not modelled.\<close>

type_synonym 'a io = "world \<Rightarrow> (error + 'a) \<times> world"

definition EXCLUDE_PATTERNS :: "string list" where
  "EXCLUDE_PATTERNS =
     [''.git/'', ''__pycache__/'', ''debug_home/'', ''.gitignore'', ''.sync_state.json'',
      ''setup.py'', ''setup.sh'', ''README.md'']"

subsection \<open>pathlib\<close>

text \<open>\<^verbatim>\<open>str(p)\<close> of a relative path and of an absolute one.\<close>

fun rel_str :: "path \<Rightarrow> string" where
  "rel_str [] = ''.''"
| "rel_str [s] = s"
| "rel_str (s # t) = s @ ''/'' @ rel_str t"

definition path_str :: "path \<Rightarrow> string" where
  "path_str p = (if p = [] then ''/'' else concat (map (\<lambda>s. ''/'' @ s) p))"

definition relative_to :: "path \<Rightarrow> path \<Rightarrow> error + path" where
  "relative_to p base = (if prefix base p then Inr (drop (length base) p) else Inl ValueError)"

text \<open>\<^verbatim>\<open>p.parents\<close> of a relative path: its proper ancestors, the nearest first, the
  last one being \<^verbatim>\<open>.\<close>.\<close>

definition parents :: "path \<Rightarrow> path list" where
  "parents p = rev (butlast (prefixes p))"

text \<open>\<^verbatim>\<open>t.with_suffix(t.suffix + ".tmp_sync")\<close>: the old suffix is put back, so the
  final segment gets \<^verbatim>\<open>.tmp_sync\<close> appended; a path with no name raises.\<close>

definition with_tmp_suffix :: "path \<Rightarrow> error + path" where
  "with_tmp_suffix t =
     (if t = [] then Inl ValueError else Inr (butlast t @ [last t @ ''.tmp_sync'']))"

fun split_slash :: "string \<Rightarrow> string list" where
  "split_slash [] = [[]]"
| "split_slash (c # cs) =
     (if c = CHR ''/'' then [] # split_slash cs
      else (case split_slash cs of [] \<Rightarrow> [[c]] | s # ss \<Rightarrow> (c # s) # ss))"

text \<open>\<^verbatim>\<open>relative_path.match(pattern)\<close> for a relative pattern without glob
  metacharacters (none of \<^verbatim>\<open>EXCLUDE_PATTERNS\<close> has one): the pattern's segments are
  compared with the last segments of the path; an empty pattern raises.\<close>

definition path_match :: "path \<Rightarrow> string \<Rightarrow> error + bool" where
  "path_match p pattern =
     (let pat = filter (\<lambda>s. s \<noteq> [] \<and> s \<noteq> ''.'') (split_slash pattern)
      in if pat = [] then Inl ValueError else Inr (suffix pat p))"

subsection \<open>Files\<close>

definition node_at :: "world \<Rightarrow> path \<Rightarrow> node option" where
  "node_at w p = map_of (nodes w) p"

definition exists :: "world \<Rightarrow> path \<Rightarrow> bool" where
  "exists w p = (node_at w p \<noteq> None)"

definition is_file :: "world \<Rightarrow> path \<Rightarrow> bool" where
  "is_file w p = (case node_at w p of Some (File c) \<Rightarrow> True | _ \<Rightarrow> False)"

definition is_dir :: "world \<Rightarrow> path \<Rightarrow> bool" where
  "is_dir w p = (node_at w p = Some Dir)"

text \<open>The content of the regular file at a path, if there is one.\<close>

definition file_content :: "world \<Rightarrow> path \<Rightarrow> string option" where
  "file_content w p = (case node_at w p of Some (File c) \<Rightarrow> Some c | _ \<Rightarrow> None)"

text \<open>\<^verbatim>\<open>p.mkdir(parents=True, exist_ok=True)\<close>: raises when \<open>p\<close> or an ancestor is
  a regular file, and otherwise leaves \<open>p\<close> and all its ancestors directories.\<close>

definition mkdir_parents :: "path \<Rightarrow> unit io" where
  "mkdir_parents p w =
     (if is_file w p then (Inl FileExistsError, w)
      else if list_ex (is_file w) (prefixes p) then (Inl NotADirectoryError, w)
      else (Inr (), w\<lparr>nodes := fold (\<lambda>q. AList.update q Dir) (prefixes p) (nodes w)\<rparr>))"

text \<open>\<^verbatim>\<open>open("rb").read()\<close>.\<close>

definition read_bytes :: "world \<Rightarrow> path \<Rightarrow> error + string" where
  "read_bytes w p =
     (case node_at w p of
        None \<Rightarrow> Inl FileNotFoundError
      | Some Dir \<Rightarrow> Inl IsADirectoryError
      | Some (File c) \<Rightarrow> if p \<in> denied w then Inl PermissionError else Inr c)"

text \<open>Strict UTF-8, as Python's codec accepts it: no overlong form, no surrogate,
  nothing above U+10FFFF.\<close>

definition byte_in :: "nat \<Rightarrow> nat \<Rightarrow> char \<Rightarrow> bool" where
  "byte_in lo hi c = (lo \<le> of_char c \<and> of_char c \<le> hi)"

fun utf8_valid :: "string \<Rightarrow> bool" where
  "utf8_valid [] = True"
| "utf8_valid (c # cs) =
     (if byte_in 0x00 0x7F c then utf8_valid cs
      else if byte_in 0xC2 0xDF c then
        (case cs of c1 # r \<Rightarrow> byte_in 0x80 0xBF c1 \<and> utf8_valid r | _ \<Rightarrow> False)
      else if byte_in 0xE0 0xEF c then
        (case cs of
           c1 # c2 # r \<Rightarrow>
             byte_in (if of_char c = (0xE0::nat) then 0xA0 else 0x80)
                     (if of_char c = (0xED::nat) then 0x9F else 0xBF) c1
             \<and> byte_in 0x80 0xBF c2 \<and> utf8_valid r
         | _ \<Rightarrow> False)
      else if byte_in 0xF0 0xF4 c then
        (case cs of
           c1 # c2 # c3 # r \<Rightarrow>
             byte_in (if of_char c = (0xF0::nat) then 0x90 else 0x80)
                     (if of_char c = (0xF4::nat) then 0x8F else 0xBF) c1
             \<and> byte_in 0x80 0xBF c2 \<and> byte_in 0x80 0xBF c3 \<and> utf8_valid r
         | _ \<Rightarrow> False)
      else False)"

text \<open>Text mode reads with \<^verbatim>\<open>newline=None\<close>: every \<^verbatim>\<open>\r\n\<close> and every lone
  \<^verbatim>\<open>\r\<close> comes back as \<^verbatim>\<open>\n\<close>.\<close>

fun universal_newlines :: "string \<Rightarrow> string" where
  "universal_newlines [] = []"
| "universal_newlines [c] = (if c = CR then [LF] else [c])"
| "universal_newlines (c # d # cs) =
     (if c = CR \<and> d = LF then LF # universal_newlines cs
      else if c = CR then LF # universal_newlines (d # cs)
      else c # universal_newlines (d # cs))"

text \<open>\<^verbatim>\<open>p.read_text(encoding="utf-8")\<close>. Decoded text is kept as its UTF-8 bytes.\<close>

definition read_text :: "world \<Rightarrow> path \<Rightarrow> error + string" where
  "read_text w p =
     (case read_bytes w p of
        Inl e \<Rightarrow> Inl e
      | Inr c \<Rightarrow> if utf8_valid c then Inr (universal_newlines c) else Inl UnicodeDecodeError)"

text \<open>The lines of a text, each with its terminating \<^verbatim>\<open>\n\<close> (the last one may
  lack it).\<close>

fun keepends :: "string \<Rightarrow> string list" where
  "keepends [] = []"
| "keepends (c # cs) =
     (if c = LF then [c] # keepends cs
      else (case keepends cs of [] \<Rightarrow> [[c]] | l # ls \<Rightarrow> (c # l) # ls))"

text \<open>\<^verbatim>\<open>p.open("r", encoding="utf-8").readlines()\<close>.\<close>

definition readlines :: "world \<Rightarrow> path \<Rightarrow> error + string list" where
  "readlines w p = (case read_text w p of Inl e \<Rightarrow> Inl e | Inr t \<Rightarrow> Inr (keepends t))"

text \<open>\<^verbatim>\<open>p.write_text(data)\<close>: creates or truncates the regular file \<open>p\<close>. On the
  platform modelled (POSIX, UTF-8 locale) the text is written as it is.\<close>

definition write_text :: "path \<Rightarrow> string \<Rightarrow> unit io" where
  "write_text p data w =
     (if is_dir w p then (Inl IsADirectoryError, w)
      else if \<not> is_dir w (butlast p) then (Inl FileNotFoundError, w)
      else if p \<in> denied w then (Inl PermissionError, w)
      else (Inr (), w\<lparr>nodes := AList.update p (File data) (nodes w)\<rparr>))"

text \<open>\<^verbatim>\<open>src.rename(dst)\<close> (POSIX \<^verbatim>\<open>rename(2)\<close>); both paths are entries of one
  directory wherever the program calls it. A regular file replaces a regular file; a
  directory moves with everything below it and replaces only an empty directory.\<close>

definition move_tree :: "path \<Rightarrow> path \<Rightarrow> (path \<times> node) list \<Rightarrow> (path \<times> node) list" where
  "move_tree src dst ns =
     map (\<lambda>(q, n). (if prefix src q then dst @ drop (length src) q else q, n))
       (AList.delete dst ns)"

definition rename :: "path \<Rightarrow> path \<Rightarrow> unit io" where
  "rename src dst w =
     (case node_at w src of
        None \<Rightarrow> (Inl FileNotFoundError, w)
      | Some (File c) \<Rightarrow>
          if is_dir w dst then (Inl IsADirectoryError, w)
          else (Inr (), w\<lparr>nodes := AList.update dst (File c) (AList.delete src (nodes w))\<rparr>)
      | Some Dir \<Rightarrow>
          if src = dst then (Inr (), w)
          else if is_file w dst then (Inl NotADirectoryError, w)
          else if prefix src dst then (Inl InvalidArgument, w)
          else if is_dir w dst \<and> list_ex (\<lambda>(q, n). strict_prefix dst q) (nodes w)
            then (Inl DirectoryNotEmpty, w)
          else (Inr (), w\<lparr>nodes := move_tree src dst (nodes w)\<rparr>))"

text \<open>\<^verbatim>\<open>p.unlink()\<close>.\<close>

definition unlink :: "path \<Rightarrow> unit io" where
  "unlink p w =
     (case node_at w p of
        None \<Rightarrow> (Inl FileNotFoundError, w)
      | Some Dir \<Rightarrow> (Inl IsADirectoryError, w)
      | Some (File c) \<Rightarrow> (Inr (), w\<lparr>nodes := AList.delete p (nodes w)\<rparr>))"

section \<open>\<^verbatim>\<open>ConfigSyncer\<close>\<close>

text \<open>\<^verbatim>\<open>_load_sync_state\<close> and \<^verbatim>\<open>_save_sync_state\<close>: the JSON text of the state
  file is not modelled, the file holds the dictionary itself.\<close>

definition load_sync_state :: "world \<Rightarrow> sync_state_t" where
  "load_sync_state w = (case state_file w of None \<Rightarrow> Map.empty | Some d \<Rightarrow> d)"

definition save_sync_state :: "sync_state_t \<Rightarrow> world \<Rightarrow> world" where
  "save_sync_state d w = w\<lparr>state_file := Some d\<rparr>"

definition prompt_for_confirmation :: "bool io" where
  "prompt_for_confirmation w =
     (case stdin w of
        [] \<Rightarrow> (Inl EOFError, w)
      | a # rest \<Rightarrow> (Inr a, w\<lparr>stdin := rest\<rparr>))"

text \<open>The value of \<^verbatim>\<open>force or self._prompt_for_confirmation(...)\<close>: with
  \<open>force\<close> nobody is asked.\<close>

definition confirmed :: "bool \<Rightarrow> bool io" where
  "confirmed force w = (if force then (Inr True, w) else prompt_for_confirmation w)"

definition source_statement :: "path \<Rightarrow> string" where
  "source_statement source_file =
     ''# Source personal configs'' @ [LF] @ ''source '' @ [DQ] @ path_str source_file @ [DQ]"

definition expected_statement :: "path \<Rightarrow> string" where
  "expected_statement source_file = ''source '' @ [DQ] @ path_str source_file @ [DQ, LF]"

text \<open>A write that ends the call with \<^verbatim>\<open>return True\<close>.\<close>

definition write_and_succeed :: "path \<Rightarrow> string \<Rightarrow> bool io" where
  "write_and_succeed p data w =
     (case write_text p data w of (Inl e, w') \<Rightarrow> (Inl e, w') | (Inr u, w') \<Rightarrow> (Inr True, w'))"

definition sync_by_policy :: "path \<Rightarrow> path \<Rightarrow> path \<Rightarrow> policy \<Rightarrow> bool \<Rightarrow> bool io" where
  "sync_by_policy source_file target_file tmp_target_file policy force w =
     (case mkdir_parents (butlast target_file) w of
        (Inl e, w1) \<Rightarrow> (Inl e, w1)
      | (Inr u, w1) \<Rightarrow>
     (case read_text w1 source_file of
        Inl e \<Rightarrow> (Inl e, w1)
      | Inr append_text \<Rightarrow>
          if exists w1 target_file then
            (case confirmed force w1 of
               (Inl e, w2) \<Rightarrow> (Inl e, w2)
             | (Inr False, w2) \<Rightarrow> (Inr False, w2)
             | (Inr True, w2) \<Rightarrow>
                 (case policy of
                    APPEND \<Rightarrow>
                      (case read_text w2 target_file of
                         Inl e \<Rightarrow> (Inl e, w2)
                       | Inr origin_text \<Rightarrow>
                           write_and_succeed tmp_target_file
                             (origin_text @ [LF, LF] @ append_text) w2)
                  | OVERWRITE \<Rightarrow> write_and_succeed tmp_target_file append_text w2
                  | PREPEND_SOURCE_STATEMENT \<Rightarrow>
                      (case readlines w2 target_file of
                         Inl e \<Rightarrow> (Inl e, w2)
                       | Inr origin_lines \<Rightarrow>
                           if length origin_lines < 2
                              \<or> origin_lines ! 1 \<noteq> expected_statement source_file
                           then write_and_succeed tmp_target_file
                                  (source_statement source_file @ [LF, LF]
                                   @ concat origin_lines) w2
                           else (Inr True, w2))))
          else
            (case confirmed force w1 of
               (Inl e, w2) \<Rightarrow> (Inl e, w2)
             | (Inr False, w2) \<Rightarrow> (Inr False, w2)
             | (Inr True, w2) \<Rightarrow>
                 write_and_succeed tmp_target_file
                   (case policy of
                      PREPEND_SOURCE_STATEMENT \<Rightarrow> source_statement source_file
                    | _ \<Rightarrow> append_text) w2)))"

text \<open>\<^verbatim>\<open>self.specific_policies.get(str(source.relative_to(configs)), default)\<close>.\<close>

definition policy_of :: "syncer \<Rightarrow> path \<Rightarrow> policy" where
  "policy_of s relative_path =
     (case specific_policies s (rel_str relative_path) of
        None \<Rightarrow> default_policy s
      | Some p \<Rightarrow> p)"

subsection \<open>\<^verbatim>\<open>sync\<close>\<close>

text \<open>The two list comprehensions before the \<^verbatim>\<open>try\<close>.\<close>

fun target_files_of :: "syncer \<Rightarrow> path list \<Rightarrow> error + path list" where
  "target_files_of s [] = Inr []"
| "target_files_of s (f # fs) =
     (case relative_to f (configs_dir_path s) of
        Inl e \<Rightarrow> Inl e
      | Inr r \<Rightarrow>
          (case target_files_of s fs of
             Inl e \<Rightarrow> Inl e
           | Inr ts \<Rightarrow> Inr ((target_dir_path s @ r) # ts)))"

fun tmp_target_files_of :: "path list \<Rightarrow> error + path list" where
  "tmp_target_files_of [] = Inr []"
| "tmp_target_files_of (t # ts) =
     (case with_tmp_suffix t of
        Inl e \<Rightarrow> Inl e
      | Inr tmp \<Rightarrow>
          (case tmp_target_files_of ts of
             Inl e \<Rightarrow> Inl e
           | Inr tmps \<Rightarrow> Inr (tmp # tmps)))"

text \<open>The staging loop: \<open>synced\<close> is the dictionary of the same name. Its keys are
  \<^verbatim>\<open>Path\<close> objects, which are equal (and hash alike) exactly when their strings
  are, so the model keys it by \<^verbatim>\<open>str(f)\<close>.\<close>

fun stage_files ::
  "syncer \<Rightarrow> bool \<Rightarrow> (path \<times> path \<times> path) list \<Rightarrow> (string \<rightharpoonup> bool)
     \<Rightarrow> (string \<rightharpoonup> bool) io"
where
  "stage_files s force [] synced w = (Inr synced, w)"
| "stage_files s force ((source, target, tmp_target) # rest) synced w =
     (case relative_to source (configs_dir_path s) of
        Inl e \<Rightarrow> (Inl e, w)
      | Inr r \<Rightarrow>
          (case sync_by_policy source target tmp_target (policy_of s r) force w of
             (Inl e, w') \<Rightarrow> (Inl e, w')
           | (Inr b, w') \<Rightarrow> stage_files s force rest (synced(path_str source \<mapsto> b)) w'))"

text \<open>The promotion loop.\<close>

fun promote_files :: "(path \<times> path) list \<Rightarrow> unit io" where
  "promote_files [] w = (Inr (), w)"
| "promote_files ((target, tmp_target) # rest) w =
     (if exists w tmp_target then
        (case rename tmp_target target w of
           (Inl e, w') \<Rightarrow> (Inl e, w')
         | (Inr u, w') \<Rightarrow> promote_files rest w')
      else promote_files rest w)"

text \<open>The dictionary \<^verbatim>\<open>updated_sync_states\<close>; a synced file without an entry
  raises \<^verbatim>\<open>KeyError\<close>.\<close>

fun updated_sync_states ::
  "sync_state_t \<Rightarrow> (string \<rightharpoonup> bool) \<Rightarrow> path list \<Rightarrow> sync_state_t \<Rightarrow> error + sync_state_t"
where
  "updated_sync_states st synced [] acc = Inr acc"
| "updated_sync_states st synced (f # fs) acc =
     (if synced (path_str f) = Some True then
        (case st (path_str f) of
           None \<Rightarrow> Inl KeyError
         | Some e \<Rightarrow> updated_sync_states st synced fs (acc(path_str f \<mapsto> e)))
      else updated_sync_states st synced fs acc)"

text \<open>The \<^verbatim>\<open>finally\<close> block.\<close>

fun cleanup_tmp_files :: "path list \<Rightarrow> unit io" where
  "cleanup_tmp_files [] w = (Inr (), w)"
| "cleanup_tmp_files (tmp_target # rest) w =
     (if exists w tmp_target then
        (case unlink tmp_target w of
           (Inl e, w') \<Rightarrow> (Inl e, w')
         | (Inr u, w') \<Rightarrow> cleanup_tmp_files rest w')
      else cleanup_tmp_files rest w)"

text \<open>The \<^verbatim>\<open>try\<close> block with its \<^verbatim>\<open>except Exception\<close>: the returned integer,
  the syncer and the world.\<close>

definition sync_try ::
  "syncer \<Rightarrow> path list \<Rightarrow> path list \<Rightarrow> path list \<Rightarrow> bool \<Rightarrow> world \<Rightarrow> int \<times> syncer \<times> world"
where
  "sync_try s source_files target_files tmp_target_files force w =
     (case stage_files s force (zip source_files (zip target_files tmp_target_files))
             (map_of (map (\<lambda>f. (path_str f, False)) source_files)) w of
        (Inl e, w1) \<Rightarrow> (1, s, w1)
      | (Inr synced, w1) \<Rightarrow>
          (case promote_files (zip target_files tmp_target_files) w1 of
             (Inl e, w2) \<Rightarrow> (1, s, w2)
           | (Inr u, w2) \<Rightarrow>
               (case updated_sync_states (sync_state s) synced source_files Map.empty of
                  Inl e \<Rightarrow> (1, s, w2)
                | Inr updated \<Rightarrow>
                    let st = load_sync_state w2 ++ updated
                    in (0, s\<lparr>sync_state := st\<rparr>, save_sync_state st w2))))"

text \<open>\<^verbatim>\<open>sync\<close>: \<open>Inr\<close> is the integer it returns, \<open>Inl\<close> an exception that leaves
  it (from the comprehensions before the \<^verbatim>\<open>try\<close>, or from the
  \<^verbatim>\<open>finally\<close> block, which then replaces the pending return).\<close>

definition sync :: "syncer \<Rightarrow> path list \<Rightarrow> bool \<Rightarrow> world \<Rightarrow> (error + int) \<times> syncer \<times> world" where
  "sync s source_files force w =
     (case target_files_of s source_files of
        Inl e \<Rightarrow> (Inl e, s, w)
      | Inr target_files \<Rightarrow>
          (case tmp_target_files_of target_files of
             Inl e \<Rightarrow> (Inl e, s, w)
           | Inr tmp_target_files \<Rightarrow>
               (case sync_try s source_files target_files tmp_target_files force w of
                  (rc, s', w1) \<Rightarrow>
                    (case cleanup_tmp_files tmp_target_files w1 of
                       (Inl e, w2) \<Rightarrow> (Inl e, s', w2)
                     | (Inr u, w2) \<Rightarrow> (Inr rc, s', w2)))))"

subsection \<open>Change detection\<close>

text \<open>\<^verbatim>\<open>_compute_file_hash\<close>: the digest of the file's bytes. The digest function
  (\<^verbatim>\<open>hashlib.md5(...).hexdigest()\<close>) is a parameter; nothing below depends on which
  function it is.\<close>

definition compute_file_hash :: "(string \<Rightarrow> string) \<Rightarrow> world \<Rightarrow> path \<Rightarrow> error + string" where
  "compute_file_hash md5 w p = (case read_bytes w p of Inl e \<Rightarrow> Inl e | Inr c \<Rightarrow> Inr (md5 c))"

definition validate_expected_condition ::
  "(string \<Rightarrow> string) \<Rightarrow> syncer \<Rightarrow> world \<Rightarrow> path \<Rightarrow> path \<Rightarrow> error + bool"
where
  "validate_expected_condition md5 s w source_path target_path =
     (case relative_to source_path (configs_dir_path s) of
        Inl e \<Rightarrow> Inl e
      | Inr r \<Rightarrow>
          (case policy_of s r of
             PREPEND_SOURCE_STATEMENT \<Rightarrow>
               (case readlines w target_path of
                  Inl e \<Rightarrow> Inl e
                | Inr target_lines \<Rightarrow>
                    if length target_lines \<le> 1 then Inl IndexError
                    else Inr (target_lines ! 1 = expected_statement source_path))
           | _ \<Rightarrow>
               (case compute_file_hash md5 w source_path of
                  Inl e \<Rightarrow> Inl e
                | Inr source_hash \<Rightarrow>
                    (case compute_file_hash md5 w target_path of
                       Inl e \<Rightarrow> Inl e
                     | Inr target_hash \<Rightarrow> Inr (source_hash = target_hash)))))"

text \<open>The loop over \<^verbatim>\<open>self.exclude_patterns\<close>.\<close>

fun excluded_by_patterns :: "string list \<Rightarrow> path \<Rightarrow> error + bool" where
  "excluded_by_patterns [] relative_path = Inr False"
| "excluded_by_patterns (pattern # rest) relative_path =
     (if pattern \<noteq> [] \<and> last pattern = CHR ''/'' then
        (if list_ex (\<lambda>part. rel_str part = butlast pattern) (parents relative_path)
         then Inr True
         else excluded_by_patterns rest relative_path)
      else
        (case path_match relative_path pattern of
           Inl e \<Rightarrow> Inl e
         | Inr True \<Rightarrow> Inr True
         | Inr False \<Rightarrow> excluded_by_patterns rest relative_path))"

text \<open>Assignments to keys of the entry \<^verbatim>\<open>self.sync_state[str(source_path)]\<close>.\<close>

definition set_entry :: "string \<Rightarrow> entry \<Rightarrow> syncer \<Rightarrow> syncer" where
  "set_entry k e s = s\<lparr>sync_state := (sync_state s)(k \<mapsto> e)\<rparr>"

text \<open>\<^verbatim>\<open>_validate_exclude\<close>; \<open>timestamp\<close> is \<^verbatim>\<open>datetime.now().isoformat()\<close> and
  \<open>md5\<close> the digest \<^verbatim>\<open>hashlib.md5(...).hexdigest()\<close>. The result \<open>True\<close> means: leave
  the file out.\<close>

definition validate_exclude ::
  "(string \<Rightarrow> string) \<Rightarrow> string \<Rightarrow> syncer \<Rightarrow> world \<Rightarrow> path \<Rightarrow> error + (bool \<times> syncer)"
where
  "validate_exclude md5 timestamp s w source_path =
     (case relative_to source_path (configs_dir_path s) of
        Inl e \<Rightarrow> Inl e
      | Inr relative_path \<Rightarrow>
     (case excluded_by_patterns (exclude_patterns s) relative_path of
        Inl e \<Rightarrow> Inl e
      | Inr True \<Rightarrow> Inr (True, s)
      | Inr False \<Rightarrow>
     (case compute_file_hash md5 w source_path of
        Inl e \<Rightarrow> Inl e
      | Inr current_hash \<Rightarrow>
     (case sync_state s (path_str source_path) of
        None \<Rightarrow>
          Inr (False,
               set_entry (path_str source_path)
                 [''hash'' \<mapsto> current_hash, ''last sync timestamp'' \<mapsto> timestamp,
                  ''sync reason'' \<mapsto> ''New file to be synced''] s)
      | Some e \<Rightarrow>
          if e ''hash'' \<noteq> Some current_hash then
            Inr (False,
                 set_entry (path_str source_path)
                   (e(''hash'' \<mapsto> current_hash, ''last sync timestamp'' \<mapsto> timestamp,
                      ''sync reason'' \<mapsto>
                        ''Source File is modified (hash mismatch) since last sync'')) s)
          else if \<not> exists w (target_dir_path s @ relative_path) then
            Inr (False,
                 set_entry (path_str source_path)
                   (e(''last sync timestamp'' \<mapsto> timestamp,
                      ''sync reason'' \<mapsto>
                        ''Target file dose not exist or is deleted since last sync'')) s)
          else
            (case validate_expected_condition md5 s w source_path
                    (target_dir_path s @ relative_path) of
               Inl e' \<Rightarrow> Inl e'
             | Inr True \<Rightarrow> Inr (True, s)
             | Inr False \<Rightarrow>
                 Inr (False,
                      set_entry (path_str source_path)
                        (e(''last sync timestamp'' \<mapsto> timestamp,
                           ''sync reason'' \<mapsto>
                             ''Target file does not meet the expected condition'')) s))))))"

text \<open>\<^verbatim>\<open>get_syncing_files\<close> over \<open>listing\<close>, the paths that
  \<^verbatim>\<open>configs_dir_path.rglob("*")\<close> yields; \<open>clock p\<close> is the time at which \<open>p\<close> is
  looked at.\<close>

fun get_syncing_files ::
  "(string \<Rightarrow> string) \<Rightarrow> (path \<Rightarrow> string) \<Rightarrow> world \<Rightarrow> path list \<Rightarrow> syncer
     \<Rightarrow> error + (path list \<times> syncer)"
where
  "get_syncing_files md5 clock w [] s = Inr ([], s)"
| "get_syncing_files md5 clock w (file_path # rest) s =
     (if \<not> is_file w file_path then get_syncing_files md5 clock w rest s
      else
        (case validate_exclude md5 (clock file_path) s w file_path of
           Inl e \<Rightarrow> Inl e
         | Inr (True, s') \<Rightarrow> get_syncing_files md5 clock w rest s'
         | Inr (False, s') \<Rightarrow>
             (case get_syncing_files md5 clock w rest s' of
                Inl e \<Rightarrow> Inl e
              | Inr (fs, s'') \<Rightarrow> Inr (file_path # fs, s''))))"


section \<open>Effects of the file operations\<close>

lemma map_of_fold_update:
  "map_of (fold (\<lambda>q. AList.update q v) qs ns) q = (if q \<in> set qs then Some v else map_of ns q)"
  by (induction qs arbitrary: ns) (auto simp: update_conv')

lemma node_at_update [simp]:
  "node_at (w\<lparr>nodes := AList.update p n (nodes w)\<rparr>) q = (if q = p then Some n else node_at w q)"
  by (simp add: node_at_def update_conv')

lemma node_at_delete [simp]:
  "node_at (w\<lparr>nodes := AList.delete p (nodes w)\<rparr>) q = (if q = p then None else node_at w q)"
  by (simp add: node_at_def delete_conv')

lemma node_at_mkdir [simp]:
  "node_at (w\<lparr>nodes := fold (\<lambda>q. AList.update q Dir) (prefixes p) (nodes w)\<rparr>) q
     = (if prefix q p then Some Dir else node_at w q)"
  by (simp add: node_at_def map_of_fold_update)

lemma node_at_rename_file [simp]:
  "node_at (w\<lparr>nodes := AList.update dst n (AList.delete src (nodes w))\<rparr>) q
     = (if q = dst then Some n else if q = src then None else node_at w q)"
  by (simp add: node_at_def update_conv' delete_conv')

lemma node_at_other_fields [simp]:
  "node_at (w\<lparr>stdin := x\<rparr>) q = node_at w q"
  "node_at (w\<lparr>state_file := y\<rparr>) q = node_at w q"
  "node_at (w\<lparr>denied := z\<rparr>) q = node_at w q"
  by (simp_all add: node_at_def)

lemma mkdir_parents_Inl: "mkdir_parents p w = (Inl e, w') \<Longrightarrow> w' = w"
  by (auto simp: mkdir_parents_def split: if_splits)

lemma mkdir_parents_Inr:
  assumes "mkdir_parents p w = (Inr u, w')"
  shows "node_at w' q = (if prefix q p then Some Dir else node_at w q)"
    and "denied w' = denied w" and "state_file w' = state_file w" and "stdin w' = stdin w"
    and "prefix q p \<Longrightarrow> \<not> is_file w q"
  using assms by (auto simp: mkdir_parents_def list_ex_iff split: if_splits)

lemma write_text_Inl: "write_text p d w = (Inl e, w') \<Longrightarrow> w' = w"
  by (auto simp: write_text_def split: if_splits)

lemma write_text_Inr:
  assumes "write_text p d w = (Inr u, w')"
  shows "node_at w' q = (if q = p then Some (File d) else node_at w q)"
    and "denied w' = denied w" and "state_file w' = state_file w" and "stdin w' = stdin w"
    and "\<not> is_dir w p" and "is_dir w (butlast p)" and "p \<notin> denied w"
  using assms by (auto simp: write_text_def split: if_splits)

lemma write_and_succeed_Inl: "write_and_succeed p d w = (Inl e, w') \<Longrightarrow> w' = w"
  by (auto simp: write_and_succeed_def dest: write_text_Inl split: prod.splits sum.splits)


lemma confirmed_cases:
  assumes "confirmed force w = (r, w')"
  shows "node_at w' = node_at w" and "denied w' = denied w" and "state_file w' = state_file w"
  using assms
  by (auto simp: confirmed_def prompt_for_confirmation_def fun_eq_iff split: if_splits list.splits)


lemma file_content_mkdir:
  assumes "mkdir_parents p w = (r, w')"
  shows "file_content w' q = file_content w q"
proof (cases r)
  case (Inl e)
  then show ?thesis using assms mkdir_parents_Inl by blast
next
  case (Inr u)
  with assms have m: "mkdir_parents p w = (Inr u, w')" by simp
  show ?thesis
  proof (cases "prefix q p")
    case True
    then have "\<not> is_file w q" using mkdir_parents_Inr(5)[OF m] by blast
    moreover have "node_at w' q = Some Dir" using mkdir_parents_Inr(1)[OF m, of q] True by simp
    ultimately show ?thesis
      by (simp add: file_content_def is_file_def split: option.splits node.splits)
  next
    case False
    then show ?thesis using mkdir_parents_Inr(1)[OF m, of q] by (simp add: file_content_def)
  qed
qed

lemma is_dir_mkdir:
  "mkdir_parents p w = (r, w') \<Longrightarrow> is_dir w' q \<longleftrightarrow> is_dir w q \<or> (prefix q p \<and> r = Inr ())"
  by (cases r) (auto simp: is_dir_def dest!: mkdir_parents_Inl
      dest: mkdir_parents_Inr(1)[where q=q] split: if_splits)

lemma mkdir_fields:
  "mkdir_parents p w = (r, w') \<Longrightarrow> denied w' = denied w \<and> state_file w' = state_file w \<and> stdin w' = stdin w"
  by (cases r) (auto dest!: mkdir_parents_Inl dest: mkdir_parents_Inr)

lemma write_and_succeed_frame:
  assumes "write_and_succeed p d w = (r, w')"
  shows "denied w' = denied w \<and> state_file w' = state_file w \<and> stdin w' = stdin w
    \<and> (q \<noteq> p \<longrightarrow> node_at w' q = node_at w q) \<and> (is_dir w' q \<longleftrightarrow> is_dir w q)"
  using assms
  by (auto simp: write_and_succeed_def write_text_def is_dir_def split: if_splits)

lemma confirmed_frame:
  assumes "confirmed force w = (r, w')"
  shows "denied w' = denied w \<and> state_file w' = state_file w \<and> node_at w' q = node_at w q"
  using confirmed_cases[OF assms] by simp

lemma sync_by_policy_shape:
  assumes "sync_by_policy src t tmp pol force w = (r, w')"
  shows "\<exists>r1 w1. mkdir_parents (butlast t) w = (r1, w1) \<and>
           (w' = w1 \<or> (\<exists>rc w2. confirmed force w1 = (rc, w2) \<and>
              (w' = w2 \<or> (\<exists>d. write_and_succeed tmp d w2 = (r, w')))))"
proof -
  obtain r1 w1 where m: "mkdir_parents (butlast t) w = (r1, w1)"
    by (cases "mkdir_parents (butlast t) w")
  obtain rc w2 where c: "confirmed force w1 = (rc, w2)"
    by (cases "confirmed force w1")
  have "w' = w1 \<or> w' = w2 \<or> (\<exists>d. write_and_succeed tmp d w2 = (r, w'))"
    using assms
    by (simp add: sync_by_policy_def m c split: sum.splits if_splits bool.splits policy.splits)
       blast+
  then show ?thesis using m c by blast
qed


lemma sync_by_policy_frame:
  assumes "sync_by_policy src t tmp pol force w = (r, w')"
  shows "denied w' = denied w" and "state_file w' = state_file w"
    and "q \<noteq> tmp \<Longrightarrow> file_content w' q = file_content w q"
    and "is_dir w' q \<Longrightarrow> is_dir w q \<or> prefix q (butlast t)"
    and "is_dir w q \<Longrightarrow> is_dir w' q"
proof -
  from sync_by_policy_shape[OF assms] obtain r1 w1 where
    m: "mkdir_parents (butlast t) w = (r1, w1)" and
    rest: "w' = w1 \<or> (\<exists>rc w2. confirmed force w1 = (rc, w2) \<and>
              (w' = w2 \<or> (\<exists>d. write_and_succeed tmp d w2 = (r, w'))))"
    by blast
  have step: "denied w' = denied w1 \<and> state_file w' = state_file w1
    \<and> (q \<noteq> tmp \<longrightarrow> node_at w' q = node_at w1 q) \<and> (is_dir w' q \<longleftrightarrow> is_dir w1 q)"
    using rest
  proof (elim disjE exE conjE)
    assume "w' = w1" then show ?thesis by simp
  next
    fix rc w2 assume c: "confirmed force w1 = (rc, w2)" and "w' = w2"
    then show ?thesis using confirmed_frame[OF c, of q] by (simp add: is_dir_def)
  next
    fix rc w2 d assume c: "confirmed force w1 = (rc, w2)"
      and ws: "write_and_succeed tmp d w2 = (r, w')"
    show ?thesis
      using confirmed_frame[OF c, of q] write_and_succeed_frame[OF ws, of q]
      by (simp add: is_dir_def)
  qed
  note f1 = mkdir_fields[OF m] file_content_mkdir[OF m, of q] is_dir_mkdir[OF m, of q]
  show "denied w' = denied w" using step f1 by simp
  show "state_file w' = state_file w" using step f1 by simp
  show "q \<noteq> tmp \<Longrightarrow> file_content w' q = file_content w q"
    using step f1 by (simp add: file_content_def)
  show "is_dir w' q \<Longrightarrow> is_dir w q \<or> prefix q (butlast t)" using step f1 by auto
  show "is_dir w q \<Longrightarrow> is_dir w' q" using step f1 by auto
qed

lemma mkdir_parents_succeeds:
  assumes "\<not> list_ex (is_file w) (prefixes p)"
  shows "mkdir_parents p w = (Inr (), w\<lparr>nodes := fold (\<lambda>q. AList.update q Dir) (prefixes p) (nodes w)\<rparr>)"
  using assms by (auto simp: mkdir_parents_def list_ex_iff)

lemma read_text_Inr_file:
  "read_text w p = Inr t \<Longrightarrow> is_file w p"
  by (auto simp: read_text_def read_bytes_def is_file_def split: option.splits node.splits if_splits sum.splits)

lemma read_bytes_same:
  "node_at w' p = node_at w p \<Longrightarrow> denied w' = denied w \<Longrightarrow> read_bytes w' p = read_bytes w p"
  by (simp add: read_bytes_def split: option.splits node.splits)

lemma read_text_same:
  "node_at w' p = node_at w p \<Longrightarrow> denied w' = denied w \<Longrightarrow> read_text w' p = read_text w p"
  using read_bytes_same[of w' p w] by (simp add: read_text_def)

lemma read_text_after_mkdir:
  assumes "mkdir_parents p w = (Inr u, w1)" and "read_text w q = Inr t"
  shows "read_text w1 q = Inr t"
proof -
  have "is_file w q" using assms(2) by (rule read_text_Inr_file)
  then have "\<not> prefix q p" using mkdir_parents_Inr(5)[OF assms(1)] by blast
  then have "node_at w1 q = node_at w q" using mkdir_parents_Inr(1)[OF assms(1), of q] by simp
  then show ?thesis using assms(2) mkdir_parents_Inr(2)[OF assms(1)] read_text_same[of w1 q w]
    by simp
qed

lemma read_text_stdin [simp]: "read_text (w\<lparr>stdin := x\<rparr>) p = read_text w p"
  using read_text_same[of "w\<lparr>stdin := x\<rparr>" p w] by simp

lemma write_and_succeed_ok:
  assumes "\<not> is_dir w p" and "is_dir w (butlast p)" and "p \<notin> denied w"
  shows "write_and_succeed p d w = (Inr True, w\<lparr>nodes := AList.update p (File d) (nodes w)\<rparr>)"
  using assms by (simp add: write_and_succeed_def write_text_def)

lemma confirmed_granted:
  assumes "force \<or> (\<exists>rest. stdin w = True # rest)"
  shows "\<exists>w2. confirmed force w = (Inr True, w2) \<and> nodes w2 = nodes w \<and> denied w2 = denied w
           \<and> state_file w2 = state_file w"
  using assms by (auto simp: confirmed_def prompt_for_confirmation_def)

lemma with_tmp_suffix_Inr:
  assumes "with_tmp_suffix t = Inr tmp"
  shows "t \<noteq> []" and "butlast tmp = butlast t" and "\<not> prefix tmp (butlast t)" and "tmp \<noteq> t"
    and "tmp = butlast t @ [last t @ ''.tmp_sync'']"
proof -
  show ne: "t \<noteq> []" and eq: "tmp = butlast t @ [last t @ ''.tmp_sync'']"
    using assms by (auto simp: with_tmp_suffix_def split: if_splits)
  show "butlast tmp = butlast t" using eq by (simp add: butlast_append)
  show "\<not> prefix tmp (butlast t)" using eq by (auto simp: prefix_def)
  show "tmp \<noteq> t"
  proof
    assume "tmp = t"
    then have "butlast t @ [last t @ ''.tmp_sync''] = butlast t @ [last t]" using eq ne by simp
    then show False by simp
  qed
qed

lemma node_at_cong: "nodes w' = nodes w \<Longrightarrow> node_at w' q = node_at w q"
  by (simp add: node_at_def)

lemmas run_defs =
  sync_def sync_try_def relative_to_def with_tmp_suffix_def policy_of_def
  sync_by_policy_def mkdir_parents_def is_file_def read_text_def read_bytes_def readlines_def
  exists_def confirmed_def write_and_succeed_def write_text_def is_dir_def rename_def unlink_def
  path_str_def load_sync_state_def save_sync_state_def byte_in_def node_at_def Let_def
  file_content_def source_statement_def expected_statement_def
  validate_exclude_def validate_expected_condition_def compute_file_hash_def set_entry_def
  EXCLUDE_PATTERNS_def parents_def path_match_def suffix_def

subsection \<open>The loops of \<^verbatim>\<open>sync\<close>\<close>

lemma stage_files_frame:
  assumes "stage_files s force L synced w = (r, w')"
  shows "denied w' = denied w \<and> state_file w' = state_file w
    \<and> (q \<notin> (\<lambda>x. snd (snd x)) ` set L \<longrightarrow> file_content w' q = file_content w q)
    \<and> (is_dir w' q \<longrightarrow> is_dir w q \<or> (\<exists>x\<in>set L. prefix q (butlast (fst (snd x)))))
    \<and> (is_dir w q \<longrightarrow> is_dir w' q)"
  using assms
proof (induction L arbitrary: synced w)
  case Nil
  then show ?case by simp
next
  case (Cons x L)
  obtain f t tmp where x: "x = (f, t, tmp)" by (cases x)
  show ?case
  proof (cases "relative_to f (configs_dir_path s)")
    case (Inl e)
    then show ?thesis using Cons.prems x by simp
  next
    case (Inr rl)
    obtain r1 w1 where sp: "sync_by_policy f t tmp (policy_of s rl) force w = (r1, w1)"
      by (cases "sync_by_policy f t tmp (policy_of s rl) force w")
    note fr = sync_by_policy_frame(1,2)[OF sp] sync_by_policy_frame(3,4,5)[OF sp, where q = q]
    show ?thesis
    proof (cases r1)
      case (Inl e)
      then have "w' = w1" using Cons.prems x Inr sp by simp
      then show ?thesis using fr x by auto
    next
      case (Inr b)
      then have "stage_files s force L (synced(path_str f \<mapsto> b)) w1 = (r, w')"
        using Cons.prems x \<open>relative_to f (configs_dir_path s) = Inr rl\<close> sp by simp
      from Cons.IH[OF this] show ?thesis using fr x by auto
    qed
  qed
qed

lemma cleanup_tmp_files_ok:
  assumes "\<forall>tmp\<in>set tmps. \<not> is_dir w tmp"
  shows "\<exists>w'. cleanup_tmp_files tmps w = (Inr (), w')
           \<and> (\<forall>q. node_at w' q = (if q \<in> set tmps then None else node_at w q))
           \<and> denied w' = denied w \<and> state_file w' = state_file w \<and> stdin w' = stdin w"
  using assms
proof (induction tmps arbitrary: w)
  case Nil
  then show ?case by simp
next
  case (Cons tmp tmps)
  show ?case
  proof (cases "node_at w tmp")
    case None
    then have "cleanup_tmp_files (tmp # tmps) w = cleanup_tmp_files tmps w"
      by (simp add: exists_def)
    moreover have "\<forall>x\<in>set tmps. \<not> is_dir w x" using Cons.prems by simp
    from Cons.IH[OF this] obtain w' where
      "cleanup_tmp_files tmps w = (Inr (), w')"
      "\<forall>q. node_at w' q = (if q \<in> set tmps then None else node_at w q)"
      "denied w' = denied w \<and> state_file w' = state_file w \<and> stdin w' = stdin w" by blast
    ultimately show ?thesis using None by auto
  next
    case (Some n)
    then obtain c where n: "node_at w tmp = Some (File c)"
      using Cons.prems by (cases n) (auto simp: is_dir_def)
    let ?w1 = "w\<lparr>nodes := AList.delete tmp (nodes w)\<rparr>"
    have u: "cleanup_tmp_files (tmp # tmps) w = cleanup_tmp_files tmps ?w1"
      using n by (simp add: exists_def unlink_def)
    have "\<forall>x\<in>set tmps. \<not> is_dir ?w1 x" using Cons.prems by (simp add: is_dir_def)
    from Cons.IH[OF this] obtain w' where
      "cleanup_tmp_files tmps ?w1 = (Inr (), w')"
      "\<forall>q. node_at w' q = (if q \<in> set tmps then None else node_at ?w1 q)"
      "denied w' = denied ?w1 \<and> state_file w' = state_file ?w1 \<and> stdin w' = stdin ?w1" by blast
    then show ?thesis using u by auto
  qed
qed

lemma prefix_butlast_target: "prefix q (butlast t) \<Longrightarrow> prefix q t"
  by (meson prefix_order.trans prefixeq_butlast)

lemma target_files_of_length: "target_files_of s fs = Inr ts \<Longrightarrow> length ts = length fs"
  by (induction fs arbitrary: ts) (auto split: sum.splits)

lemma tmp_target_files_of_length: "tmp_target_files_of ts = Inr tmps \<Longrightarrow> length tmps = length ts"
  by (induction ts arbitrary: tmps) (auto split: sum.splits)


lemma zip3_members:
  "x \<in> set (zip fs (zip ts tmps)) \<Longrightarrow> fst (snd x) \<in> set ts \<and> snd (snd x) \<in> set tmps"
proof -
  obtain f t tmp where x: "x = (f, t, tmp)" by (cases x)
  assume "x \<in> set (zip fs (zip ts tmps))"
  then have "(t, tmp) \<in> set (zip ts tmps)" using x by (auto dest: set_zip_rightD)
  then show ?thesis using x by (auto dest: set_zip_leftD set_zip_rightD)
qed

lemma rename_fields:
  "rename src dst w = (r, w') \<Longrightarrow>
     denied w' = denied w \<and> state_file w' = state_file w \<and> stdin w' = stdin w"
  by (auto simp: rename_def split: option.splits node.splits if_splits)

lemma promote_files_fields:
  "promote_files L w = (r, w') \<Longrightarrow>
     denied w' = denied w \<and> state_file w' = state_file w \<and> stdin w' = stdin w"
proof (induction L arbitrary: w)
  case Nil
  then show ?case by simp
next
  case (Cons x L)
  obtain t tmp where x: "x = (t, tmp)" by (cases x)
  show ?case
  proof (cases "exists w tmp")
    case False
    then show ?thesis using Cons x by simp
  next
    case True
    obtain r1 w1 where rn: "rename tmp t w = (r1, w1)" by (cases "rename tmp t w")
    show ?thesis
    proof (cases r1)
      case (Inl e)
      then show ?thesis using Cons.prems x True rn rename_fields[OF rn] by simp
    next
      case (Inr u)
      then have "promote_files L w1 = (r, w')" using Cons.prems x True rn by simp
      from Cons.IH[OF this] show ?thesis using rename_fields[OF rn] by simp
    qed
  qed
qed

lemma unlink_fields:
  "unlink p w = (r, w') \<Longrightarrow>
     denied w' = denied w \<and> state_file w' = state_file w \<and> stdin w' = stdin w"
  by (auto simp: unlink_def split: option.splits node.splits)

lemma cleanup_tmp_files_fields:
  "cleanup_tmp_files tmps w = (r, w') \<Longrightarrow>
     denied w' = denied w \<and> state_file w' = state_file w \<and> stdin w' = stdin w"
proof (induction tmps arbitrary: w)
  case Nil
  then show ?case by simp
next
  case (Cons tmp tmps)
  show ?case
  proof (cases "exists w tmp")
    case False
    then show ?thesis using Cons by simp
  next
    case True
    obtain r1 w1 where un: "unlink tmp w = (r1, w1)" by (cases "unlink tmp w")
    show ?thesis
    proof (cases r1)
      case (Inl e)
      then show ?thesis using Cons.prems True un unlink_fields[OF un] by simp
    next
      case (Inr u)
      then have "cleanup_tmp_files tmps w1 = (r, w')" using Cons.prems True un by simp
      from Cons.IH[OF this] show ?thesis using unlink_fields[OF un] by simp
    qed
  qed
qed

lemma updated_sync_states_lookup:
  assumes "updated_sync_states st synced fs acc = Inr upd"
  shows "upd k = (if k \<in> path_str ` {f \<in> set fs. synced (path_str f) = Some True}
                  then st k else acc k)"
  using assms
proof (induction fs arbitrary: acc)
  case Nil
  then show ?case by simp
next
  case (Cons f fs)
  show ?case
  proof (cases "synced (path_str f) = Some True")
    case False
    then have "updated_sync_states st synced fs acc = Inr upd" using Cons.prems by simp
    from Cons.IH[OF this] show ?thesis using False by auto
  next
    case True
    then obtain e where e: "st (path_str f) = Some e"
      and rec: "updated_sync_states st synced fs (acc(path_str f \<mapsto> e)) = Inr upd"
      using Cons.prems by (auto split: option.splits)
    from Cons.IH[OF rec] show ?thesis using True e by auto
  qed
qed

lemma updated_sync_states_total:
  assumes "\<forall>f\<in>set fs. synced (path_str f) = Some True \<longrightarrow> st (path_str f) \<noteq> None"
  shows "\<exists>upd. updated_sync_states st synced fs acc = Inr upd"
  using assms by (induction fs arbitrary: acc) (auto split: option.splits)


lemma node_at_eq_by_parts:
  "file_content a p = file_content b p \<Longrightarrow> is_dir a p = is_dir b p \<Longrightarrow> node_at a p = node_at b p"
  by (auto simp: file_content_def is_dir_def split: option.splits node.splits)







lemma zip3_has_source:
  assumes "f \<in> set fs" and "length ts = length fs" and "length tmps = length ts"
  shows "\<exists>t tmp. (f, t, tmp) \<in> set (zip fs (zip ts tmps))"
proof -
  from assms(1) obtain i where i: "i < length fs" and f: "fs ! i = f"
    by (auto simp: in_set_conv_nth)
  then have "(f, ts ! i, tmps ! i) \<in> set (zip fs (zip ts tmps))"
    using assms(2,3) by (auto simp: in_set_zip)
  then show ?thesis by blast
qed



lemma sync_returns_shape:
  assumes tf: "target_files_of s source_files = Inr target_files"
    and tt: "tmp_target_files_of target_files = Inr tmp_target_files"
    and st: "stage_files s force (zip source_files (zip target_files tmp_target_files))
               (map_of (map (\<lambda>f. (path_str f, False)) source_files)) w = (Inr synced, w1)"
    and pr: "promote_files (zip target_files tmp_target_files) w1 = (Inr (), w2)"
    and en: "\<forall>f\<in>set source_files. synced (path_str f) = Some True
                \<longrightarrow> sync_state s (path_str f) \<noteq> None"
    and ret: "fst (sync s source_files force w) = Inr rc"
  shows "\<exists>updated w3.
           updated_sync_states (sync_state s) synced source_files Map.empty = Inr updated
         \<and> cleanup_tmp_files tmp_target_files
               (save_sync_state (load_sync_state w ++ updated) w2) = (Inr (), w3)
         \<and> sync s source_files force w
               = (Inr 0, s\<lparr>sync_state := load_sync_state w ++ updated\<rparr>, w3)
         \<and> state_file w3 = Some (load_sync_state w ++ updated)"
proof -
  obtain updated where up: "updated_sync_states (sync_state s) synced source_files Map.empty = Inr updated"
    using updated_sync_states_total[OF en] by blast
  have sf: "state_file w2 = state_file w"
    using stage_files_frame[OF st] promote_files_fields[OF pr] by simp
  then have ld: "load_sync_state w2 = load_sync_state w" by (simp add: load_sync_state_def)
  let ?st = "load_sync_state w ++ updated"
  have tr: "sync_try s source_files target_files tmp_target_files force w
              = (0, s\<lparr>sync_state := ?st\<rparr>, save_sync_state ?st w2)"
    by (simp add: sync_try_def st pr up ld Let_def)
  obtain r3 w3 where cl: "cleanup_tmp_files tmp_target_files (save_sync_state ?st w2) = (r3, w3)"
    by (cases "cleanup_tmp_files tmp_target_files (save_sync_state ?st w2)")
  have s3: "state_file w3 = Some ?st"
    using cleanup_tmp_files_fields[OF cl] by (simp add: save_sync_state_def)
  have r3: "r3 = Inr ()" using ret by (cases r3) (simp_all add: sync_def tf tt tr cl)
  then have "sync s source_files force w = (Inr 0, s\<lparr>sync_state := ?st\<rparr>, w3)"
    by (simp add: sync_def tf tt tr cl)
  then show ?thesis using up cl r3 s3 by blast
qed

lemma zip_members: "x \<in> set (zip xs ys) \<Longrightarrow> fst x \<in> set xs \<and> snd x \<in> set ys"
  by (metis prod.collapse set_zip_leftD set_zip_rightD)

lemma universal_newlines_plain: "CR \<notin> set c \<Longrightarrow> universal_newlines c = c"
  by (induction c rule: universal_newlines.induct) auto

lemma read_text_plain:
  assumes "node_at w p = Some (File c)" and "p \<notin> denied w" and "utf8_valid c" and "CR \<notin> set c"
  shows "read_text w p = Inr c"
  using assms by (simp add: read_text_def read_bytes_def universal_newlines_plain)

lemma policy_of_sync_state [simp]: "policy_of (s\<lparr>sync_state := x\<rparr>) r = policy_of s r"
  by (simp add: policy_of_def split: option.splits)

subsection \<open>One turn of the staging loop\<close>

lemma stage_files_append:
  "stage_files s force (A @ B) synced w =
     (case stage_files s force A synced w of
        (Inl e, w') \<Rightarrow> (Inl e, w')
      | (Inr sy, w') \<Rightarrow> stage_files s force B sy w')"
proof (induction A arbitrary: synced w)
  case Nil
  show ?case by simp
next
  case (Cons x A)
  obtain f t tmp where x: "x = (f, t, tmp)" by (cases x)
  show ?case
  proof (cases "relative_to f (configs_dir_path s)")
    case (Inl e)
    then show ?thesis using x by simp
  next
    case (Inr rl)
    obtain r1 w1 where sp: "sync_by_policy f t tmp (policy_of s rl) force w = (r1, w1)"
      by (cases "sync_by_policy f t tmp (policy_of s rl) force w")
    show ?thesis
    proof (cases r1)
      case (Inl e)
      then show ?thesis using x Inr sp by simp
    next
      case (Inr b)
      have a: "stage_files s force ((x # A) @ B) synced w
                 = stage_files s force (A @ B) (synced(path_str f \<mapsto> b)) w1"
        using x \<open>relative_to f (configs_dir_path s) = Inr rl\<close> sp Inr by simp
      have b: "stage_files s force (x # A) synced w
                 = stage_files s force A (synced(path_str f \<mapsto> b)) w1"
        using x \<open>relative_to f (configs_dir_path s) = Inr rl\<close> sp Inr by simp
      show ?thesis unfolding a b by (rule Cons.IH)
    qed
  qed
qed

lemma stage_files_keys:
  assumes "stage_files s force B sy w = (Inr sy', w')"
    and "k \<notin> (\<lambda>x. path_str (fst x)) ` set B"
  shows "sy' k = sy k"
  using assms
proof (induction B arbitrary: sy w)
  case Nil
  then show ?case by simp
next
  case (Cons x B)
  obtain f t tmp where x: "x = (f, t, tmp)" by (cases x)
  from Cons.prems(1) x obtain rl where rl: "relative_to f (configs_dir_path s) = Inr rl"
    by (cases "relative_to f (configs_dir_path s)") auto
  obtain r1 w1 where sp: "sync_by_policy f t tmp (policy_of s rl) force w = (r1, w1)"
    by (cases "sync_by_policy f t tmp (policy_of s rl) force w")
  from Cons.prems(1) x rl sp obtain b where
    rest: "stage_files s force B (sy(path_str f \<mapsto> b)) w1 = (Inr sy', w')"
    by (cases r1) auto
  have "sy' k = (sy(path_str f \<mapsto> b)) k" using Cons.IH[OF rest] Cons.prems(2) by simp
  then show ?case using Cons.prems(2) x by simp
qed

lemma stage_files_at:
  assumes st: "stage_files s force L sy0 w = (Inr synced, w1)"
    and n: "n < length L" and x: "L ! n = (f, t, tmp)"
  shows "\<exists>sy wa rl b wb.
           stage_files s force (take n L) sy0 w = (Inr sy, wa)
         \<and> relative_to f (configs_dir_path s) = Inr rl
         \<and> sync_by_policy f t tmp (policy_of s rl) force wa = (Inr b, wb)
         \<and> stage_files s force (drop (Suc n) L) (sy(path_str f \<mapsto> b)) wb = (Inr synced, w1)
         \<and> (path_str f \<notin> (\<lambda>x. path_str (fst x)) ` set (drop (Suc n) L)
              \<longrightarrow> synced (path_str f) = Some b)"
proof -
  define A where "A = take n L"
  define B where "B = drop (Suc n) L"
  have L: "L = A @ (f, t, tmp) # B"
    unfolding A_def B_def using id_take_nth_drop[OF n] x by simp
  obtain ra wa where a: "stage_files s force A sy0 w = (ra, wa)"
    by (cases "stage_files s force A sy0 w")
  have whole: "(case ra of Inl e \<Rightarrow> (Inl e, wa)
                 | Inr sy \<Rightarrow> stage_files s force ((f, t, tmp) # B) sy wa) = (Inr synced, w1)"
    using st unfolding L stage_files_append a by (simp split: sum.splits)
  then obtain sy where ra: "ra = Inr sy"
    and step: "stage_files s force ((f, t, tmp) # B) sy wa = (Inr synced, w1)"
    by (cases ra) auto
  from step obtain rl where rl: "relative_to f (configs_dir_path s) = Inr rl"
    by (cases "relative_to f (configs_dir_path s)") auto
  obtain rb wb where sp: "sync_by_policy f t tmp (policy_of s rl) force wa = (rb, wb)"
    by (cases "sync_by_policy f t tmp (policy_of s rl) force wa")
  from step rl sp obtain b where rb: "rb = Inr b"
    and rest: "stage_files s force B (sy(path_str f \<mapsto> b)) wb = (Inr synced, w1)"
    by (cases rb) auto
  have "synced (path_str f) = Some b"
    if "path_str f \<notin> (\<lambda>x. path_str (fst x)) ` set (drop (Suc n) L)"
  proof -
    have "synced (path_str f) = (sy(path_str f \<mapsto> b)) (path_str f)"
      using stage_files_keys[OF rest] that unfolding B_def by simp
    then show ?thesis by simp
  qed
  then show ?thesis using a ra rl sp rb rest unfolding A_def B_def by blast
qed

lemma last_position:
  assumes "n < length fs"
  shows "\<exists>m. m < length fs \<and> path_str (fs ! m) = path_str (fs ! n)
           \<and> path_str (fs ! m) \<notin> path_str ` set (drop (Suc m) fs)"
proof -
  let ?S = "{m. m < length fs \<and> path_str (fs ! m) = path_str (fs ! n)}"
  have fin: "finite ?S" by simp
  have ne: "?S \<noteq> {}" using assms by auto
  define m where "m = Max ?S"
  have mS: "m \<in> ?S" unfolding m_def using Max_in[OF fin ne] .
  have "path_str (fs ! m) \<notin> path_str ` set (drop (Suc m) fs)"
  proof
    assume "path_str (fs ! m) \<in> path_str ` set (drop (Suc m) fs)"
    then obtain g where g: "g \<in> set (drop (Suc m) fs)" "path_str g = path_str (fs ! m)"
      by auto
    then obtain i where "i < length (drop (Suc m) fs)" "drop (Suc m) fs ! i = g"
      by (auto simp: in_set_conv_nth)
    then have "Suc m + i < length fs" "fs ! (Suc m + i) = g" by auto
    then have "Suc m + i \<in> ?S" using g mS by simp
    then have "Suc m + i \<le> m" unfolding m_def using Max_ge[OF fin] by blast
    then show False by simp
  qed
  then show ?thesis using mS by blast
qed

lemma sync_by_policy_declined:
  assumes sp: "sync_by_policy src t tmp pol force w = (Inr b, w')"
    and nf: "\<not> force" and ans: "stdin w = False # rest"
  shows "\<not> b"
proof -
  obtain r1 w1 where m: "mkdir_parents (butlast t) w = (r1, w1)"
    by (cases "mkdir_parents (butlast t) w")
  have s1: "stdin w1 = False # rest" using mkdir_fields[OF m] ans by simp
  have c: "confirmed force w1 = (Inr False, w1\<lparr>stdin := rest\<rparr>)"
    using nf s1 by (simp add: confirmed_def prompt_for_confirmation_def)
  show ?thesis
    using sp by (auto simp: sync_by_policy_def m c split: sum.splits if_splits)
qed


lemma zip3_nth:
  assumes "n < length fs" and "length ts = length fs" and "length tmps = length ts"
  shows "zip fs (zip ts tmps) ! n = (fs ! n, ts ! n, tmps ! n)"
    and "n < length (zip fs (zip ts tmps))"
    and "(\<lambda>x. path_str (fst x)) ` set (drop (Suc n) (zip fs (zip ts tmps)))
           \<subseteq> path_str ` set (drop (Suc n) fs)"
proof -
  show "zip fs (zip ts tmps) ! n = (fs ! n, ts ! n, tmps ! n)" using assms by simp
  show "n < length (zip fs (zip ts tmps))" using assms by simp
  have "drop (Suc n) (zip fs (zip ts tmps)) = zip (drop (Suc n) fs) (drop (Suc n) (zip ts tmps))"
    by (simp add: drop_zip)
  then show "(\<lambda>x. path_str (fst x)) ` set (drop (Suc n) (zip fs (zip ts tmps)))
           \<subseteq> path_str ` set (drop (Suc n) fs)"
    using zip_members by fastforce
qed

lemma read_text_content:
  assumes "file_content w p = Some c" and "p \<notin> denied w" and "utf8_valid c"
  shows "read_text w p = Inr (universal_newlines c)"
  using assms
  by (auto simp: read_text_def read_bytes_def file_content_def split: option.splits node.splits)

subsection \<open>The already-prepended target and the promotion loop\<close>











section \<open>The merge engine\<close>

text \<open>
  C10. \<^verbatim>\<open>_sync_by_policy\<close> creates the parent directories of the target before it
  asks for confirmation. When no ancestor of the target is a regular file, the source can
  be read and the operator answers no, the call returns \<open>False\<close> (skipped) and leaves the
  target's parent and all its ancestors as directories; nothing else in the tree changes
  and no file content changes.
\<close>

theorem decline_still_creates_parent_dirs:
  assumes anc: "\<not> list_ex (is_file w) (prefixes (butlast target_file))"
    and src: "read_text w source_file = Inr txt"
    and nf: "\<not> force"
    and ans: "stdin w = False # rest"
  shows "\<exists>w'. sync_by_policy source_file target_file tmp_target_file policy force w = (Inr False, w')
          \<and> is_dir w' (butlast target_file)
          \<and> (\<forall>q. node_at w' q = (if prefix q (butlast target_file) then Some Dir else node_at w q))
          \<and> (\<forall>q. file_content w' q = file_content w q)"
proof -
  define w1 where "w1 = w\<lparr>nodes := fold (\<lambda>q. AList.update q Dir) (prefixes (butlast target_file)) (nodes w)\<rparr>"
  have m: "mkdir_parents (butlast target_file) w = (Inr (), w1)"
    unfolding w1_def using anc by (rule mkdir_parents_succeeds)
  have r: "read_text w1 source_file = Inr txt" using m src by (rule read_text_after_mkdir)
  have c: "confirmed force w1 = (Inr False, w1\<lparr>stdin := rest\<rparr>)"
    using nf ans by (simp add: confirmed_def prompt_for_confirmation_def w1_def)
  have res: "sync_by_policy source_file target_file tmp_target_file policy force w = (Inr False, w1\<lparr>stdin := rest\<rparr>)"
    by (simp add: sync_by_policy_def m r c)
  have n: "\<forall>q. node_at (w1\<lparr>stdin := rest\<rparr>) q = (if prefix q (butlast target_file) then Some Dir else node_at w q)"
    using mkdir_parents_Inr(1)[OF m] by simp
  have f: "\<forall>q. file_content (w1\<lparr>stdin := rest\<rparr>) q = file_content w q"
    using file_content_mkdir[OF m] by (simp add: file_content_def)
  show ?thesis using res n f by (auto simp: is_dir_def)
qed

theorem decline_still_creates_parent_dirs_witness:
  "\<exists>w'. sync_by_policy [''c'', ''f''] [''t'', ''d'', ''f''] [''t'', ''d'', ''f.tmp_sync''] OVERWRITE False
           \<lparr>nodes = [([''c'', ''f''], File ''x'')], denied = {}, state_file = None,
            stdin = [False]\<rparr> = (Inr False, w')
        \<and> is_dir w' [''t'', ''d'']
        \<and> \<not> is_dir \<lparr>nodes = [([''c'', ''f''], File ''x'')], denied = {}, state_file = None,
                     stdin = [False]\<rparr> [''t'', ''d'']"
proof -
  let ?W = "\<lparr>nodes = [([''c'', ''f''], File ''x'')], denied = {}, state_file = None,
             stdin = [False]\<rparr>"
  have a: "\<not> list_ex (is_file ?W) (prefixes (butlast [''t'', ''d'', ''f'']))"
    by (simp add: is_file_def node_at_def)
  have b: "read_text ?W [''c'', ''f''] = Inr ''x''"
    by (simp add: read_text_def read_bytes_def node_at_def byte_in_def)
  have c: "\<not> False" by simp
  have d: "stdin ?W = False # []" by simp
  have e: "\<not> is_dir ?W [''t'', ''d'']" by (simp add: is_dir_def node_at_def)
  from decline_still_creates_parent_dirs[OF a b c d, of "[''t'', ''d'', ''f.tmp_sync'']" OVERWRITE] e
  show ?thesis by auto
qed

text \<open>
  C7. Under \<^verbatim>\<open>APPEND\<close> the staging file does not hold the target's content, two
  newlines and the source's content when the target holds a carriage return: both files are
  read in text mode, so for a target holding \<^verbatim>\<open>A\r\n\<close> and a source holding
  \<^verbatim>\<open>B\<close> (confirmation forced) the merge returns \<open>True\<close> and stages
  \<^verbatim>\<open>A\n\n\nB\<close>, which is not \<^verbatim>\<open>A\r\n\<close>, two newlines and \<^verbatim>\<open>B\<close>.
\<close>

theorem append_rewrites_crlf_target:
  "file_content \<lparr>nodes = [([''c'', ''f''], File ''B''), ([''t'', ''f''], File [CHR ''A'', CR, LF])],
                  denied = {}, state_file = None, stdin = []\<rparr> [''t'', ''f'']
     = Some [CHR ''A'', CR, LF]
   \<and> file_content \<lparr>nodes = [([''c'', ''f''], File ''B''), ([''t'', ''f''], File [CHR ''A'', CR, LF])],
                  denied = {}, state_file = None, stdin = []\<rparr> [''c'', ''f'']
     = Some ''B''
   \<and> (case sync_by_policy [''c'', ''f''] [''t'', ''f''] [''t'', ''f.tmp_sync''] APPEND True
             \<lparr>nodes = [([''c'', ''f''], File ''B''), ([''t'', ''f''], File [CHR ''A'', CR, LF])],
              denied = {}, state_file = None, stdin = []\<rparr> of
         (r, w') \<Rightarrow> (r, file_content w' [''t'', ''f.tmp_sync'']))
       = (Inr True, Some [CHR ''A'', LF, LF, LF, CHR ''B''])
   \<and> [CHR ''A'', LF, LF, LF, CHR ''B''] \<noteq> [CHR ''A'', CR, LF] @ [LF, LF] @ ''B''"
  by (simp add: run_defs)

text \<open>
  What the staging file holds in general, for an existing target with the bytes \<open>A\<close> and a
  source with the bytes \<open>B\<close>, both readable and valid UTF-8, with confirmation granted and
  a staging path that can be written: the two texts as text mode reads them, with two
  newlines between them. For contents without a carriage return that is \<open>A\<close>, two newlines
  and \<open>B\<close>.
\<close>

lemma append_stages_texts:
  assumes tgt: "file_content w target_file = Some A" and src: "file_content w source_file = Some B"
    and rt: "target_file \<notin> denied w" and rs: "source_file \<notin> denied w"
    and ua: "utf8_valid A" and ub: "utf8_valid B"
    and ok: "force \<or> (\<exists>rest. stdin w = True # rest)"
    and anc: "\<not> list_ex (is_file w) (prefixes (butlast target_file))"
    and tmp: "with_tmp_suffix target_file = Inr tmp_target_file"
    and nd: "\<not> is_dir w tmp_target_file"
    and dn: "tmp_target_file \<notin> denied w"
  shows "\<exists>w'. sync_by_policy source_file target_file tmp_target_file APPEND force w = (Inr True, w')
          \<and> file_content w' tmp_target_file
              = Some (universal_newlines A @ [LF, LF] @ universal_newlines B)"
proof -
  let ?A = "universal_newlines A" and ?B = "universal_newlines B"
  have tgt': "read_text w target_file = Inr ?A" using tgt rt ua by (rule read_text_content)
  have src': "read_text w source_file = Inr ?B" using src rs ub by (rule read_text_content)
  define w1 where "w1 = w\<lparr>nodes := fold (\<lambda>q. AList.update q Dir) (prefixes (butlast target_file)) (nodes w)\<rparr>"
  have m: "mkdir_parents (butlast target_file) w = (Inr (), w1)"
    unfolding w1_def using anc by (rule mkdir_parents_succeeds)
  have r1: "read_text w1 source_file = Inr ?B" using m src' by (rule read_text_after_mkdir)
  have r2: "read_text w1 target_file = Inr ?A" using m tgt' by (rule read_text_after_mkdir)
  have ex: "exists w1 target_file"
    using read_text_Inr_file[OF r2] by (auto simp: exists_def is_file_def split: option.splits)
  have "force \<or> (\<exists>rest. stdin w1 = True # rest)" using ok by (simp add: w1_def)
  from confirmed_granted[OF this] obtain w2 where
    c: "confirmed force w1 = (Inr True, w2)" and n2: "nodes w2 = nodes w1"
    and d2: "denied w2 = denied w1" by blast
  have same: "\<And>q. node_at w2 q = node_at w1 q" using n2 by (rule node_at_cong)
  have r3: "read_text w2 target_file = Inr ?A"
    using r2 read_text_same[of w2 target_file w1] same d2 by simp
  note t = with_tmp_suffix_Inr[OF tmp]
  have a1: "\<not> is_dir w2 tmp_target_file"
    using nd t(3) mkdir_parents_Inr(1)[OF m, of tmp_target_file] same by (simp add: is_dir_def)
  have a2: "is_dir w2 (butlast tmp_target_file)"
    using t(2) mkdir_parents_Inr(1)[OF m, of "butlast target_file"] same by (simp add: is_dir_def)
  have a3: "tmp_target_file \<notin> denied w2" using dn d2 mkdir_parents_Inr(2)[OF m] by simp
  have "sync_by_policy source_file target_file tmp_target_file APPEND force w
      = (Inr True, w2\<lparr>nodes := AList.update tmp_target_file (File (?A @ [LF, LF] @ ?B)) (nodes w2)\<rparr>)"
    by (simp add: sync_by_policy_def m r1 ex c r3 write_and_succeed_ok[OF a1 a2 a3])
  then show ?thesis by (auto simp: file_content_def)
qed

lemma append_stages_plain_contents:
  assumes tgt: "file_content w target_file = Some A" and src: "file_content w source_file = Some B"
    and rt: "target_file \<notin> denied w" and rs: "source_file \<notin> denied w"
    and ua: "utf8_valid A" and ub: "utf8_valid B"
    and pa: "CR \<notin> set A" and pb: "CR \<notin> set B"
    and ok: "force \<or> (\<exists>rest. stdin w = True # rest)"
    and anc: "\<not> list_ex (is_file w) (prefixes (butlast target_file))"
    and tmp: "with_tmp_suffix target_file = Inr tmp_target_file"
    and nd: "\<not> is_dir w tmp_target_file"
    and dn: "tmp_target_file \<notin> denied w"
  shows "\<exists>w'. sync_by_policy source_file target_file tmp_target_file APPEND force w = (Inr True, w')
          \<and> file_content w' tmp_target_file = Some (A @ [LF, LF] @ B)"
  using append_stages_texts[OF tgt src rt rs ua ub ok anc tmp nd dn]
    universal_newlines_plain[OF pa] universal_newlines_plain[OF pb]
  by simp

text \<open>
  C3. Applied twice to a target that does not exist yet, \<^verbatim>\<open>PREPEND_SOURCE_STATEMENT\<close>
  is not idempotent in the code: the first run creates the target as the two header lines
  with no final newline, so the second run finds \<^verbatim>\<open>source "..."\<close> without the
  \<^verbatim>\<open>\n\<close> that the expected directive line ends with, and prepends the header again.
\<close>

theorem prepend_after_create_prepends_again:
  "(case sync \<lparr>target_dir_path = [''t''], configs_dir_path = [''c''],
               sync_state = [''/c/.bashrc'' \<mapsto> Map.empty],
               exclude_patterns = EXCLUDE_PATTERNS, default_policy = OVERWRITE,
               specific_policies = [''.bashrc'' \<mapsto> PREPEND_SOURCE_STATEMENT]\<rparr>
          [[''c'', ''.bashrc'']] True
          \<lparr>nodes = [([''c'', ''.bashrc''], File ''export A=1'')], denied = {},
           state_file = None, stdin = []\<rparr> of
      (r1, s1, w1) \<Rightarrow>
        (case sync s1 [[''c'', ''.bashrc'']] True w1 of
           (r2, s2, w2) \<Rightarrow> (r1, file_content w1 [''t'', ''.bashrc''],
                              r2, file_content w2 [''t'', ''.bashrc''])))
   = (Inr 0, Some (source_statement [''c'', ''.bashrc'']),
      Inr 0, Some (source_statement [''c'', ''.bashrc''] @ [LF, LF]
                   @ source_statement [''c'', ''.bashrc'']))"
  by (simp add: run_defs)

text \<open>
  On a target that exists the same merge is idempotent, since there the directive line is
  written with its newline; an instance.
\<close>

lemma prepend_on_existing_target_twice:
  "(case sync \<lparr>target_dir_path = [''t''], configs_dir_path = [''c''],
               sync_state = [''/c/.bashrc'' \<mapsto> Map.empty],
               exclude_patterns = EXCLUDE_PATTERNS, default_policy = OVERWRITE,
               specific_policies = [''.bashrc'' \<mapsto> PREPEND_SOURCE_STATEMENT]\<rparr>
          [[''c'', ''.bashrc'']] True
          \<lparr>nodes = [([''c'', ''.bashrc''], File ''export A=1''),
                    ([''t'', ''.bashrc''], File ''PS1=x'')], denied = {},
           state_file = None, stdin = []\<rparr> of
      (r1, s1, w1) \<Rightarrow>
        (case sync s1 [[''c'', ''.bashrc'']] True w1 of
           (r2, s2, w2) \<Rightarrow> (r1, file_content w1 [''t'', ''.bashrc''],
                              r2, file_content w2 [''t'', ''.bashrc''])))
   = (Inr 0, Some (source_statement [''c'', ''.bashrc''] @ [LF, LF] @ ''PS1=x''),
      Inr 0, Some (source_statement [''c'', ''.bashrc''] @ [LF, LF] @ ''PS1=x''))"
  by (simp add: run_defs)

text \<open>
  C6. A brand-new source file holding \<^verbatim>\<open>a\r\n\<close> and synced under
  \<^verbatim>\<open>OVERWRITE\<close> is read in text mode, so the promoted target holds \<^verbatim>\<open>a\n\<close>: it
  is not byte-identical to the source, and the next change detection calls the file up to
  date only if the two byte strings have the same digest.
\<close>

theorem overwrite_rewrites_crlf:
  "(case validate_exclude digest ''t0''
           \<lparr>target_dir_path = [''t''], configs_dir_path = [''c''], sync_state = Map.empty,
            exclude_patterns = EXCLUDE_PATTERNS, default_policy = OVERWRITE,
            specific_policies = Map.empty\<rparr>
           \<lparr>nodes = [([''c'', ''f''], File [CHR ''a'', CR, LF])], denied = {},
            state_file = None, stdin = []\<rparr> [''c'', ''f''] of
      Inl err \<Rightarrow> None
    | Inr (b0, s0) \<Rightarrow>
        (case sync s0 [[''c'', ''f'']] True
                \<lparr>nodes = [([''c'', ''f''], File [CHR ''a'', CR, LF])], denied = {},
                 state_file = None, stdin = []\<rparr> of
           (r1, s1, w1) \<Rightarrow>
             Some (b0, r1, file_content w1 [''c'', ''f''], file_content w1 [''t'', ''f''],
                   map_sum id fst (validate_exclude digest ''t1'' s1 w1 [''c'', ''f'']))))
   = Some (False, Inr 0, Some [CHR ''a'', CR, LF], Some [CHR ''a'', LF],
           Inr (digest [CHR ''a'', CR, LF] = digest [CHR ''a'', LF]))"
  by (simp add: run_defs split: bool.split)

text \<open>
  For a source that is valid UTF-8 text without carriage returns the round trip holds: the
  new file is a candidate, one \<^verbatim>\<open>sync\<close> of it under \<^verbatim>\<open>OVERWRITE\<close> returns 0
  and leaves a target with the source's bytes, and the next look finds it up to date
  without touching the state.
\<close>

lemma overwrite_round_trip_plain_text:
  assumes rel: "relative_to f (configs_dir_path s) = Inr rl"
    and nex: "excluded_by_patterns (exclude_patterns s) rl = Inr False"
    and pol: "policy_of s rl = OVERWRITE"
    and new: "sync_state s (path_str f) = None"
    and src: "node_at w f = Some (File c)" and sd: "f \<notin> denied w"
    and u8: "utf8_valid c" and ncr: "CR \<notin> set c"
    and tgt: "node_at w (target_dir_path s @ rl) = None"
    and td: "target_dir_path s @ rl \<notin> denied w"
    and sfx: "with_tmp_suffix (target_dir_path s @ rl) = Inr tmp"
    and tmpd: "\<not> is_dir w tmp" and tmpn: "tmp \<notin> denied w" and tmps: "tmp \<noteq> f"
    and anc: "\<not> list_ex (is_file w) (prefixes (butlast (target_dir_path s @ rl)))"
    and ok: "force \<or> (\<exists>rest. stdin w = True # rest)"
  shows "\<exists>s0 s1 w1.
           validate_exclude digest ts0 s w f = Inr (False, s0)
         \<and> sync s0 [f] force w = (Inr 0, s1, w1)
         \<and> file_content w1 (target_dir_path s @ rl) = Some c
         \<and> file_content w1 f = Some c
         \<and> validate_exclude digest ts1 s1 w1 f = Inr (True, s1)"
proof -
  let ?t = "target_dir_path s @ rl"
  let ?k = "path_str f"
  let ?e = "[''hash'' \<mapsto> digest c, ''last sync timestamp'' \<mapsto> ts0,
             ''sync reason'' \<mapsto> ''New file to be synced'']"
  let ?s0 = "s\<lparr>sync_state := (sync_state s)(?k \<mapsto> ?e)\<rparr>"
  have rb: "read_bytes w f = Inr c" using src sd by (simp add: read_bytes_def)
  have v0: "validate_exclude digest ts0 s w f = Inr (False, ?s0)"
    using rel nex new rb by (simp add: validate_exclude_def compute_file_hash_def set_entry_def)
  define wm where "wm = w\<lparr>nodes := fold (\<lambda>q. AList.update q Dir) (prefixes (butlast ?t)) (nodes w)\<rparr>"
  have m: "mkdir_parents (butlast ?t) w = (Inr (), wm)"
    unfolding wm_def using anc by (rule mkdir_parents_succeeds)
  have rt: "read_text w f = Inr c" using read_text_plain[OF src sd u8 ncr] .
  have r1: "read_text wm f = Inr c" using m rt by (rule read_text_after_mkdir)
  note t = with_tmp_suffix_Inr[OF sfx]
  have "\<not> prefix ?t (butlast ?t)" using t(1) by (metis append_butlast_last_id prefix_order.antisym prefixeq_butlast self_append_conv snoc_eq_iff_butlast)
  then have nex1: "\<not> exists wm ?t"
    using mkdir_parents_Inr(1)[OF m, of ?t] tgt by (simp add: exists_def)
  have "force \<or> (\<exists>rest. stdin wm = True # rest)" using ok by (simp add: wm_def)
  from confirmed_granted[OF this] obtain wc where
    c: "confirmed force wm = (Inr True, wc)" and n2: "nodes wc = nodes wm"
    and d2: "denied wc = denied wm" and s2: "state_file wc = state_file wm" by blast
  have same: "\<And>q. node_at wc q = node_at wm q" using n2 by (rule node_at_cong)
  have a1: "\<not> is_dir wc tmp"
    using tmpd t(3) mkdir_parents_Inr(1)[OF m, of tmp] same by (simp add: is_dir_def)
  have a2: "is_dir wc (butlast tmp)"
    using t(2) mkdir_parents_Inr(1)[OF m, of "butlast ?t"] same by (simp add: is_dir_def)
  have a3: "tmp \<notin> denied wc" using tmpn d2 mkdir_parents_Inr(2)[OF m] by simp
  let ?wa = "wc\<lparr>nodes := AList.update tmp (File c) (nodes wc)\<rparr>"
  have sp: "sync_by_policy f ?t tmp OVERWRITE force w = (Inr True, ?wa)"
    by (simp add: sync_by_policy_def m r1 nex1 c write_and_succeed_ok[OF a1 a2 a3])
  have rel0: "relative_to f (configs_dir_path ?s0) = Inr rl" using rel by simp
  have pol0: "policy_of ?s0 rl = OVERWRITE" using pol by simp
  have stg: "stage_files ?s0 force [(f, ?t, tmp)] [?k \<mapsto> False] w = (Inr [?k \<mapsto> True], ?wa)"
    using rel0 pol0 sp by simp
  have nta: "\<not> is_dir ?wa ?t" using nex1 same t(4) by (simp add: is_dir_def exists_def)
  let ?wb = "?wa\<lparr>nodes := AList.update ?t (File c) (AList.delete tmp (nodes ?wa))\<rparr>"
  have prm: "promote_files [(?t, tmp)] ?wa = (Inr (), ?wb)"
    using nta by (simp add: exists_def rename_def)
  have upd: "updated_sync_states (sync_state ?s0) [?k \<mapsto> True] [f] Map.empty = Inr [?k \<mapsto> ?e]"
    by simp
  let ?st = "load_sync_state ?wb ++ [?k \<mapsto> ?e]"
  let ?s1 = "?s0\<lparr>sync_state := ?st\<rparr>"
  have tr: "sync_try ?s0 [f] [?t] [tmp] force w = (0, ?s1, save_sync_state ?st ?wb)"
    using stg prm upd by (simp add: sync_try_def Let_def)
  let ?w1 = "save_sync_state ?st ?wb"
  have "node_at ?w1 tmp = None"
    using t(4) by (simp add: node_at_def save_sync_state_def update_conv' delete_conv')
  then have cl: "cleanup_tmp_files [tmp] ?w1 = (Inr (), ?w1)"
    by (simp add: exists_def)
  have tf0: "target_files_of ?s0 [f] = Inr [?t]" using rel by simp
  have tt0: "tmp_target_files_of [?t] = Inr [tmp]" using sfx by simp
  have res: "sync ?s0 [f] force w = (Inr 0, ?s1, ?w1)"
    using tr cl by (simp add: sync_def tf0 tt0 del: target_files_of.simps tmp_target_files_of.simps)
  have nt1: "node_at ?w1 ?t = Some (File c)"
    by (simp add: node_at_def save_sync_state_def update_conv' delete_conv')
  have "is_file w f" using src by (simp add: is_file_def)
  then have "\<not> prefix f (butlast ?t)" using mkdir_parents_Inr(5)[OF m] by blast
  then have "node_at wm f = Some (File c)" using mkdir_parents_Inr(1)[OF m, of f] src by simp
  moreover have "f \<noteq> ?t" using src tgt by auto
  ultimately have nf1: "node_at ?w1 f = Some (File c)"
    using same[of f] tmps
    by (simp add: node_at_def save_sync_state_def update_conv' delete_conv')
  have dn1: "denied ?w1 = denied w"
    using d2 mkdir_parents_Inr(2)[OF m] by (simp add: save_sync_state_def)
  have "\<exists>s1 w1. sync ?s0 [f] force w = (Inr 0, s1, w1)
          \<and> node_at w1 ?t = Some (File c) \<and> node_at w1 f = Some (File c)
          \<and> denied w1 = denied w \<and> sync_state s1 ?k = Some ?e
          \<and> configs_dir_path s1 = configs_dir_path s \<and> target_dir_path s1 = target_dir_path s
          \<and> exclude_patterns s1 = exclude_patterns s \<and> policy_of s1 rl = OVERWRITE"
    using res nt1 nf1 dn1 pol by simp
  then obtain s1 w1 where res1: "sync ?s0 [f] force w = (Inr 0, s1, w1)"
    and nt: "node_at w1 ?t = Some (File c)" and nf: "node_at w1 f = Some (File c)"
    and dn: "denied w1 = denied w" and ent1: "sync_state s1 ?k = Some ?e"
    and cfg: "configs_dir_path s1 = configs_dir_path s"
    and tdp: "target_dir_path s1 = target_dir_path s"
    and exc: "exclude_patterns s1 = exclude_patterns s" and pol1: "policy_of s1 rl = OVERWRITE"
    by blast
  have rbf: "read_bytes w1 f = Inr c" using nf dn sd by (simp add: read_bytes_def)
  have rbt: "read_bytes w1 ?t = Inr c" using nt dn td by (simp add: read_bytes_def)
  have ext: "exists w1 ?t" using nt by (simp add: exists_def)
  have vec: "validate_expected_condition digest s1 w1 f ?t = Inr True"
    using rel pol1 rbf rbt cfg
    by (simp add: validate_expected_condition_def compute_file_hash_def)
  have v1: "validate_exclude digest ts1 s1 w1 f = Inr (True, s1)"
    using rel nex rbf ent1 ext vec cfg tdp exc
    by (simp add: validate_exclude_def compute_file_hash_def)
  show ?thesis
    using v0 res1 nt nf v1 by (auto simp: file_content_def)
qed

section \<open>The change detector\<close>

text \<open>
  C8. For a source file that no exclude pattern matches, with a state entry whose stored
  hash is the digest of its present content, and whose target path does not exist, the
  change detector answers "needs sync" and rewrites only the entry's timestamp and reason:
  the entry's hash (and every other key, and every other entry) stays as stored.
\<close>

theorem target_missing_keeps_stored_hash:
  assumes rel: "relative_to source_path (configs_dir_path s) = Inr r"
    and nex: "excluded_by_patterns (exclude_patterns s) r = Inr False"
    and ent: "sync_state s (path_str source_path) = Some e"
    and rd: "read_bytes w source_path = Inr c"
    and hs: "e ''hash'' = Some (digest c)"
    and mis: "\<not> exists w (target_dir_path s @ r)"
  shows "validate_exclude digest timestamp s w source_path =
           Inr (False, s\<lparr>sync_state := (sync_state s)(path_str source_path \<mapsto>
                  e(''last sync timestamp'' \<mapsto> timestamp,
                    ''sync reason'' \<mapsto> ''Target file dose not exist or is deleted since last sync''))\<rparr>)
       \<and> (e(''last sync timestamp'' \<mapsto> timestamp,
             ''sync reason'' \<mapsto> ''Target file dose not exist or is deleted since last sync'')) ''hash''
           = e ''hash''"
  using assms
  by (simp add: validate_exclude_def compute_file_hash_def set_entry_def)

theorem target_missing_keeps_stored_hash_witness:
  "(case validate_exclude (\<lambda>c. c) ''now''
     \<lparr>target_dir_path = [''t''], configs_dir_path = [''c''],
      sync_state = [''/c/f'' \<mapsto> [''hash'' \<mapsto> ''x'', ''last sync timestamp'' \<mapsto> ''then'',
                                  ''sync reason'' \<mapsto> ''New file to be synced'']],
      exclude_patterns = EXCLUDE_PATTERNS, default_policy = OVERWRITE,
      specific_policies = Map.empty\<rparr>
     \<lparr>nodes = [([''c'', ''f''], File ''x'')], denied = {}, state_file = None, stdin = []\<rparr>
     [''c'', ''f''] of
      Inl err \<Rightarrow> None
    | Inr (b, s') \<Rightarrow>
        Some (b, map_option (\<lambda>e. (e ''hash'', e ''last sync timestamp'', e ''sync reason''))
                   (sync_state s' ''/c/f'')))
   = Some (False, Some (Some ''x'', Some ''now'',
             Some ''Target file dose not exist or is deleted since last sync''))"
proof -
  let ?s = "\<lparr>target_dir_path = [''t''], configs_dir_path = [''c''],
      sync_state = [''/c/f'' \<mapsto> [''hash'' \<mapsto> ''x'', ''last sync timestamp'' \<mapsto> ''then'',
                                  ''sync reason'' \<mapsto> ''New file to be synced'']],
      exclude_patterns = EXCLUDE_PATTERNS, default_policy = OVERWRITE,
      specific_policies = Map.empty\<rparr>"
  let ?w = "\<lparr>nodes = [([''c'', ''f''], File ''x'')], denied = {}, state_file = None, stdin = []\<rparr>"
  let ?e = "[''hash'' \<mapsto> ''x'', ''last sync timestamp'' \<mapsto> ''then'',
             ''sync reason'' \<mapsto> ''New file to be synced'']"
  have a: "relative_to [''c'', ''f''] (configs_dir_path ?s) = Inr [''f'']"
    by (simp add: relative_to_def)
  have b: "excluded_by_patterns (exclude_patterns ?s) [''f''] = Inr False"
    by (simp add: EXCLUDE_PATTERNS_def parents_def path_match_def suffix_def)
  have c: "sync_state ?s (path_str [''c'', ''f'']) = Some ?e" by (simp add: path_str_def)
  have d: "read_bytes ?w [''c'', ''f''] = Inr ''x''" by (simp add: read_bytes_def node_at_def)
  have e: "?e ''hash'' = Some ((\<lambda>c. c) ''x'')" by simp
  have f: "\<not> exists ?w (target_dir_path ?s @ [''f''])" by (simp add: exists_def node_at_def)
  from target_missing_keeps_stored_hash[where digest = "\<lambda>c. c" and timestamp = "''now''", OF a b c d e f]
  show ?thesis by (simp add: path_str_def)
qed

text \<open>
  C2. A directory pattern of \<^verbatim>\<open>EXCLUDE_PATTERNS\<close> is compared with the whole string of
  each ancestor of the relative path, so it excludes a file only when the directory is the
  first segment: \<^verbatim>\<open>__pycache__/m.pyc\<close> is excluded, while
  \<^verbatim>\<open>sub/__pycache__/m.pyc\<close> is not, becomes a sync candidate and gets a state entry.
\<close>

theorem nested_pycache_is_a_candidate:
  "excluded_by_patterns EXCLUDE_PATTERNS [''__pycache__'', ''m.pyc''] = Inr True
   \<and> excluded_by_patterns EXCLUDE_PATTERNS [''sub'', ''__pycache__'', ''m.pyc''] = Inr False
   \<and> (case get_syncing_files digest clock
            \<lparr>nodes = [([''c'', ''sub'', ''__pycache__'', ''m.pyc''], File ''x'')], denied = {},
             state_file = None, stdin = []\<rparr>
            [[''c'', ''sub'', ''__pycache__'', ''m.pyc'']]
            \<lparr>target_dir_path = [''t''], configs_dir_path = [''c''], sync_state = Map.empty,
             exclude_patterns = EXCLUDE_PATTERNS, default_policy = OVERWRITE,
             specific_policies = Map.empty\<rparr> of
         Inl err \<Rightarrow> None
       | Inr (fs, s') \<Rightarrow>
           Some (fs, map_option (\<lambda>e. e ''sync reason'') (sync_state s' ''/c/sub/__pycache__/m.pyc'')))
     = Some ([[''c'', ''sub'', ''__pycache__'', ''m.pyc'']], Some (Some ''New file to be synced''))"
  by (simp add: run_defs)

text \<open>
  C4. Under \<^verbatim>\<open>PREPEND_SOURCE_STATEMENT\<close>, with an unchanged source and an existing
  target of fewer than two lines, the change detector does not answer "needs sync": the
  expected-condition check indexes the second line and raises \<^verbatim>\<open>IndexError\<close>.
\<close>

theorem short_target_raises_IndexError:
  "validate_exclude digest timestamp
     \<lparr>target_dir_path = [''t''], configs_dir_path = [''c''],
      sync_state = [''/c/.bashrc'' \<mapsto> [''hash'' \<mapsto> digest ''export A=1'']],
      exclude_patterns = EXCLUDE_PATTERNS, default_policy = OVERWRITE,
      specific_policies = [''.bashrc'' \<mapsto> PREPEND_SOURCE_STATEMENT]\<rparr>
     \<lparr>nodes = [([''c'', ''.bashrc''], File ''export A=1''), ([''t'', ''.bashrc''], File ''PS1=x'')],
      denied = {}, state_file = None, stdin = []\<rparr>
     [''c'', ''.bashrc'']
   = Inl IndexError"
  by (simp add: run_defs)

text \<open>
  A target of two or more lines whose second line is not the directive does get the answer
  "needs sync", with the stored hash kept; an instance.
\<close>

lemma two_line_target_without_directive_needs_sync:
  "(case validate_exclude digest timestamp
     \<lparr>target_dir_path = [''t''], configs_dir_path = [''c''],
      sync_state = [''/c/.bashrc'' \<mapsto> [''hash'' \<mapsto> digest ''export A=1'']],
      exclude_patterns = EXCLUDE_PATTERNS, default_policy = OVERWRITE,
      specific_policies = [''.bashrc'' \<mapsto> PREPEND_SOURCE_STATEMENT]\<rparr>
     \<lparr>nodes = [([''c'', ''.bashrc''], File ''export A=1''),
               ([''t'', ''.bashrc''], File [CHR ''a'', LF, CHR ''b''])],
      denied = {}, state_file = None, stdin = []\<rparr>
     [''c'', ''.bashrc''] of
      Inl err \<Rightarrow> None
    | Inr (b, s') \<Rightarrow>
        Some (b, map_option (\<lambda>e. (e ''hash'', e ''sync reason'')) (sync_state s' ''/c/.bashrc'')))
   = Some (False, Some (Some (digest ''export A=1''),
                        Some ''Target file does not meet the expected condition''))"
  by (simp add: run_defs)

section \<open>The batch orchestrator\<close>

text \<open>
  C1. The abort of \<^verbatim>\<open>sync\<close> is not atomic when a staging path is itself a target.
  With the candidates \<^verbatim>\<open>a\<close> and \<^verbatim>\<open>a.tmp_sync\<close>, of which the second has
  lost its source, and an existing target \<^verbatim>\<open>a.tmp_sync\<close>: staging \<^verbatim>\<open>a\<close>
  overwrites that target, staging the second candidate raises, \<^verbatim>\<open>sync\<close> returns 1,
  and the \<^verbatim>\<open>finally\<close> block deletes the target. A file that was there before the
  run is gone, where the docstring of \<^verbatim>\<open>sync\<close> promises that all changes are rolled
  back.
\<close>

theorem staging_path_that_is_a_target_is_lost:
  "target_files_of \<lparr>target_dir_path = [''t''], configs_dir_path = [''c''], sync_state = Map.empty,
              exclude_patterns = EXCLUDE_PATTERNS, default_policy = OVERWRITE,
              specific_policies = Map.empty\<rparr>
     [[''c'', ''a''], [''c'', ''a.tmp_sync'']] = Inr [[''t'', ''a''], [''t'', ''a.tmp_sync'']]
   \<and> file_content \<lparr>nodes = [([''c'', ''a''], File ''new''), ([''t'', ''a.tmp_sync''], File ''old'')],
                    denied = {}, state_file = None, stdin = []\<rparr> [''t'', ''a.tmp_sync'']
       = Some ''old''
   \<and> fst (stage_files \<lparr>target_dir_path = [''t''], configs_dir_path = [''c''], sync_state = Map.empty,
              exclude_patterns = EXCLUDE_PATTERNS, default_policy = OVERWRITE,
              specific_policies = Map.empty\<rparr> True
            [([''c'', ''a''], [''t'', ''a''], [''t'', ''a.tmp_sync'']),
             ([''c'', ''a.tmp_sync''], [''t'', ''a.tmp_sync''], [''t'', ''a.tmp_sync.tmp_sync''])]
            [''/c/a'' \<mapsto> False, ''/c/a.tmp_sync'' \<mapsto> False]
            \<lparr>nodes = [([''c'', ''a''], File ''new''), ([''t'', ''a.tmp_sync''], File ''old'')],
             denied = {}, state_file = None, stdin = []\<rparr>) = Inl FileNotFoundError
   \<and> (case sync \<lparr>target_dir_path = [''t''], configs_dir_path = [''c''], sync_state = Map.empty,
              exclude_patterns = EXCLUDE_PATTERNS, default_policy = OVERWRITE,
              specific_policies = Map.empty\<rparr>
            [[''c'', ''a''], [''c'', ''a.tmp_sync'']] True
            \<lparr>nodes = [([''c'', ''a''], File ''new''), ([''t'', ''a.tmp_sync''], File ''old'')],
             denied = {}, state_file = None, stdin = []\<rparr> of
         (r, s', w') \<Rightarrow> (r, file_content w' [''t'', ''a.tmp_sync'']))
       = (Inr 1, None)"
  by (simp add: run_defs)

text \<open>
  Away from such collisions the abort is atomic. Let no staging path be a directory before
  the run, and let none be a candidate's target path or an ancestor of one. If the staging
  loop raises, for whatever candidate and whatever cause, then \<^verbatim>\<open>sync\<close> returns 1
  with the in-memory state as it was, the content of the file at every target path (and at
  every path that is not a staging path) is what it was before the run, no staging path
  exists any more, and the state file is untouched.
\<close>

lemma staging_failure_aborts_batch:
  assumes tf: "target_files_of s source_files = Inr target_files"
    and tt: "tmp_target_files_of target_files = Inr tmp_target_files"
    and st: "fst (stage_files s force (zip source_files (zip target_files tmp_target_files))
                    (map_of (map (\<lambda>f. (path_str f, False)) source_files)) w) = Inl err"
    and clear: "\<forall>tmp\<in>set tmp_target_files.
                  \<not> is_dir w tmp \<and> (\<forall>t\<in>set target_files. \<not> prefix tmp t)"
  shows "\<exists>w'. sync s source_files force w = (Inr 1, s, w')
          \<and> (\<forall>t\<in>set target_files. file_content w' t = file_content w t)
          \<and> (\<forall>q. q \<notin> set tmp_target_files \<longrightarrow> file_content w' q = file_content w q)
          \<and> (\<forall>tmp\<in>set tmp_target_files. \<not> exists w' tmp)
          \<and> state_file w' = state_file w"
proof -
  let ?L = "zip source_files (zip target_files tmp_target_files)"
  obtain w1 where st1: "stage_files s force ?L
      (map_of (map (\<lambda>f. (path_str f, False)) source_files)) w = (Inl err, w1)"
    using st by (cases "stage_files s force ?L
      (map_of (map (\<lambda>f. (path_str f, False)) source_files)) w") auto
  have tr: "sync_try s source_files target_files tmp_target_files force w = (1, s, w1)"
    by (simp add: sync_try_def st1)
  have fr: "\<And>q. denied w1 = denied w \<and> state_file w1 = state_file w
    \<and> (q \<notin> (\<lambda>x. snd (snd x)) ` set ?L \<longrightarrow> file_content w1 q = file_content w q)
    \<and> (is_dir w1 q \<longrightarrow> is_dir w q \<or> (\<exists>x\<in>set ?L. prefix q (butlast (fst (snd x)))))
    \<and> (is_dir w q \<longrightarrow> is_dir w1 q)"
    using stage_files_frame[OF st1] by blast
  have nd: "\<forall>tmp\<in>set tmp_target_files. \<not> is_dir w1 tmp"
  proof
    fix tmp assume m: "tmp \<in> set tmp_target_files"
    show "\<not> is_dir w1 tmp"
    proof
      assume "is_dir w1 tmp"
      then have "is_dir w tmp \<or> (\<exists>x\<in>set ?L. prefix tmp (butlast (fst (snd x))))"
        using fr[of tmp] by blast
      then obtain x where "x \<in> set ?L" and "prefix tmp (butlast (fst (snd x)))"
        using clear m by blast
      then have "fst (snd x) \<in> set target_files" and "prefix tmp (fst (snd x))"
        using zip3_members prefix_butlast_target by blast+
      then show False using clear m by blast
    qed
  qed
  from cleanup_tmp_files_ok[OF nd] obtain w2 where
    cl: "cleanup_tmp_files tmp_target_files w1 = (Inr (), w2)"
    and n2: "\<forall>q. node_at w2 q = (if q \<in> set tmp_target_files then None else node_at w1 q)"
    and s2: "state_file w2 = state_file w1" by blast
  have res: "sync s source_files force w = (Inr 1, s, w2)"
    by (simp add: sync_def tf tt tr cl)
  have other: "\<forall>q. q \<notin> set tmp_target_files \<longrightarrow> file_content w2 q = file_content w q"
  proof (intro allI impI)
    fix q assume q: "q \<notin> set tmp_target_files"
    then have "q \<notin> (\<lambda>x. snd (snd x)) ` set ?L" using zip3_members by blast
    then have "file_content w1 q = file_content w q" using fr[of q] by blast
    moreover have "file_content w2 q = file_content w1 q" using n2 q by (simp add: file_content_def)
    ultimately show "file_content w2 q = file_content w q" by simp
  qed
  have tgt: "\<forall>t\<in>set target_files. file_content w2 t = file_content w t"
  proof
    fix t assume t: "t \<in> set target_files"
    have "t \<notin> set tmp_target_files" using clear t by auto
    then show "file_content w2 t = file_content w t" using other by blast
  qed
  have gone: "\<forall>tmp\<in>set tmp_target_files. \<not> exists w2 tmp" using n2 by (simp add: exists_def)
  have "state_file w2 = state_file w" using s2 fr by simp
  then show ?thesis using res tgt other gone by blast
qed

lemma staging_failure_aborts_batch_instance:
  "\<exists>w'. sync \<lparr>target_dir_path = [''t''], configs_dir_path = [''c''], sync_state = Map.empty,
              exclude_patterns = EXCLUDE_PATTERNS, default_policy = OVERWRITE,
              specific_policies = Map.empty\<rparr>
           [[''c'', ''a''], [''c'', ''gone'']] True
           \<lparr>nodes = [([''c'', ''a''], File ''new''), ([''t'', ''a''], File ''old'')], denied = {},
            state_file = None, stdin = []\<rparr>
        = (Inr 1, \<lparr>target_dir_path = [''t''], configs_dir_path = [''c''], sync_state = Map.empty,
              exclude_patterns = EXCLUDE_PATTERNS, default_policy = OVERWRITE,
              specific_policies = Map.empty\<rparr>, w')
      \<and> file_content w' [''t'', ''a''] = Some ''old''
      \<and> file_content w' [''t'', ''gone''] = None
      \<and> \<not> exists w' [''t'', ''a.tmp_sync'']
      \<and> \<not> exists w' [''t'', ''gone.tmp_sync'']
      \<and> state_file w' = None"
proof -
  let ?s = "\<lparr>target_dir_path = [''t''], configs_dir_path = [''c''], sync_state = Map.empty,
              exclude_patterns = EXCLUDE_PATTERNS, default_policy = OVERWRITE,
              specific_policies = Map.empty\<rparr>"
  let ?w = "\<lparr>nodes = [([''c'', ''a''], File ''new''), ([''t'', ''a''], File ''old'')], denied = {},
            state_file = None, stdin = []\<rparr>"
  let ?fs = "[[''c'', ''a''], [''c'', ''gone'']]"
  let ?ts = "[[''t'', ''a''], [''t'', ''gone'']]"
  let ?tmps = "[[''t'', ''a.tmp_sync''], [''t'', ''gone.tmp_sync'']]"
  have a: "target_files_of ?s ?fs = Inr ?ts" by (simp add: relative_to_def)
  have b: "tmp_target_files_of ?ts = Inr ?tmps" by (simp add: with_tmp_suffix_def)
  have c: "fst (stage_files ?s True (zip ?fs (zip ?ts ?tmps))
                 (map_of (map (\<lambda>f. (path_str f, False)) ?fs)) ?w) = Inl FileNotFoundError"
    by (simp add: run_defs)
  have d: "\<forall>tmp\<in>set ?tmps. \<not> is_dir ?w tmp \<and> (\<forall>t\<in>set ?ts. \<not> prefix tmp t)"
    by (simp add: is_dir_def node_at_def)
  from staging_failure_aborts_batch[OF a b c d]
  show ?thesis by (auto simp: file_content_def node_at_def)
qed

text \<open>
  With a directory at a staging path the write fails, the \<^verbatim>\<open>finally\<close> block's
  \<^verbatim>\<open>unlink\<close> raises on the directory, and \<^verbatim>\<open>sync\<close> raises instead of
  returning 1.
\<close>

lemma directory_at_staging_path_makes_sync_raise:
  "fst (sync \<lparr>target_dir_path = [''t''], configs_dir_path = [''c''], sync_state = Map.empty,
              exclude_patterns = EXCLUDE_PATTERNS, default_policy = OVERWRITE,
              specific_policies = Map.empty\<rparr>
          [[''c'', ''a'']] True
          \<lparr>nodes = [([''c'', ''a''], File ''new''), ([''t'', ''a.tmp_sync''], Dir)],
           denied = {}, state_file = None, stdin = []\<rparr>) = Inl IsADirectoryError"
  by (simp add: run_defs)

text \<open>
  C5. Take a batch run without \<^verbatim>\<open>force\<close> in which the operator answers no to the
  confirmation prompt for a candidate (each time the list names it: once, for a list
  without repetitions). If the staging and promotion loops raise nothing, the synced files
  all have an in-memory state entry and \<^verbatim>\<open>sync\<close> returns, then the candidate's slot
  in \<^verbatim>\<open>synced\<close> is \<open>False\<close> and it is not a key of
  \<^verbatim>\<open>updated_sync_states\<close>, which holds exactly the in-memory entries of the files
  whose slot is \<open>True\<close>; the store written to disk, and kept in memory, is the store
  reloaded from disk overridden by those entries, so the declined file keeps the entry the
  disk had for it; and \<^verbatim>\<open>sync\<close> returns 0.
\<close>

theorem declined_file_is_left_out_of_persisted_state:
  assumes tf: "target_files_of s source_files = Inr target_files"
    and tt: "tmp_target_files_of target_files = Inr tmp_target_files"
    and n: "n < length source_files"
    and nf: "\<not> force"
    and dec: "\<forall>m<length source_files.
                path_str (source_files ! m) = path_str (source_files ! n) \<longrightarrow>
                (\<exists>rest. stdin (snd (stage_files s force
                           (take m (zip source_files (zip target_files tmp_target_files)))
                           (map_of (map (\<lambda>f. (path_str f, False)) source_files)) w))
                         = False # rest)"
    and st: "fst (stage_files s force (zip source_files (zip target_files tmp_target_files))
                    (map_of (map (\<lambda>f. (path_str f, False)) source_files)) w) = Inr synced"
    and pr: "fst (promote_files (zip target_files tmp_target_files)
                    (snd (stage_files s force (zip source_files (zip target_files tmp_target_files))
                            (map_of (map (\<lambda>f. (path_str f, False)) source_files)) w))) = Inr ()"
    and en: "\<forall>f\<in>set source_files. synced (path_str f) = Some True
                \<longrightarrow> sync_state s (path_str f) \<noteq> None"
    and ret: "fst (sync s source_files force w) = Inr rc"
  shows "synced (path_str (source_files ! n)) = Some False
       \<and> (\<exists>s' w' updated.
           sync s source_files force w = (Inr 0, s', w')
         \<and> updated_sync_states (sync_state s) synced source_files Map.empty = Inr updated
         \<and> (\<forall>j. updated j = (if j \<in> path_str ` {f \<in> set source_files. synced (path_str f) = Some True}
                               then sync_state s j else None))
         \<and> updated (path_str (source_files ! n)) = None
         \<and> sync_state s' = load_sync_state w ++ updated
         \<and> state_file w' = Some (load_sync_state w ++ updated)
         \<and> (load_sync_state w ++ updated) (path_str (source_files ! n))
             = load_sync_state w (path_str (source_files ! n)))"
proof -
  let ?L = "zip source_files (zip target_files tmp_target_files)"
  let ?s0 = "map_of (map (\<lambda>f. (path_str f, False)) source_files)"
  let ?k = "path_str (source_files ! n)"
  obtain w1 where st1: "stage_files s force ?L ?s0 w = (Inr synced, w1)"
    using st by (cases "stage_files s force ?L ?s0 w") auto
  obtain w2 where pr1: "promote_files (zip target_files tmp_target_files) w1 = (Inr (), w2)"
    using pr st1 by (cases "promote_files (zip target_files tmp_target_files) w1") auto
  have len: "length target_files = length source_files"
    "length tmp_target_files = length target_files"
    using target_files_of_length[OF tf] tmp_target_files_of_length[OF tt] by simp_all
  from last_position[OF n] obtain m where m: "m < length source_files"
    and km: "path_str (source_files ! m) = ?k"
    and last: "path_str (source_files ! m) \<notin> path_str ` set (drop (Suc m) source_files)"
    by blast
  note z = zip3_nth[OF m len]
  have last': "path_str (source_files ! m) \<notin> (\<lambda>x. path_str (fst x)) ` set (drop (Suc m) ?L)"
    using last z(3) by blast
  from stage_files_at[OF st1 z(2) z(1)] last' obtain sy wa rl b wb where
    a: "stage_files s force (take m ?L) ?s0 w = (Inr sy, wa)"
    and sp: "sync_by_policy (source_files ! m) (target_files ! m) (tmp_target_files ! m)
               (policy_of s rl) force wa = (Inr b, wb)"
    and sb: "synced (path_str (source_files ! m)) = Some b" by blast
  obtain rest where "stdin wa = False # rest" using dec m km a by auto
  then have "\<not> b" using sync_by_policy_declined[OF sp nf] by blast
  then have k: "synced ?k = Some False" using sb km by simp
  from sync_returns_shape[OF tf tt st1 pr1 en ret] obtain updated w3 where
    up: "updated_sync_states (sync_state s) synced source_files Map.empty = Inr updated"
    and res: "sync s source_files force w
               = (Inr 0, s\<lparr>sync_state := load_sync_state w ++ updated\<rparr>, w3)"
    and s3: "state_file w3 = Some (load_sync_state w ++ updated)" by blast
  have lk: "\<forall>j. updated j = (if j \<in> path_str ` {f \<in> set source_files. synced (path_str f) = Some True}
                               then sync_state s j else None)"
    using updated_sync_states_lookup[OF up] by simp
  have k0: "updated ?k = None" using lk k by auto
  have "(load_sync_state w ++ updated) ?k = load_sync_state w ?k"
    using k0 by (simp add: map_add_def)
  then show ?thesis using k res up lk k0 s3 by auto
qed

theorem declined_file_is_left_out_of_persisted_state_witness:
  "\<exists>s' w'. sync
      \<lparr>target_dir_path = [''t''], configs_dir_path = [''c''],
       sync_state = [''/c/a'' \<mapsto> [''hash'' \<mapsto> ''1''], ''/c/b'' \<mapsto> [''hash'' \<mapsto> ''2'']],
       exclude_patterns = EXCLUDE_PATTERNS, default_policy = OVERWRITE,
       specific_policies = Map.empty\<rparr>
      [[''c'', ''a''], [''c'', ''b'']] False
      \<lparr>nodes = [([''c'', ''a''], File ''1''), ([''c'', ''b''], File ''2''),
                ([''t'', ''b''], File ''old'')],
       denied = {}, state_file = Some [''/c/b'' \<mapsto> [''hash'' \<mapsto> ''0'']],
       stdin = [True, False]\<rparr> = (Inr 0, s', w')
    \<and> map_option (\<lambda>d. (d ''/c/a'', d ''/c/b'')) (state_file w')
        = Some (Some [''hash'' \<mapsto> ''1''], Some [''hash'' \<mapsto> ''0''])"
proof -
  let ?s = "\<lparr>target_dir_path = [''t''], configs_dir_path = [''c''],
       sync_state = [''/c/a'' \<mapsto> [''hash'' \<mapsto> ''1''], ''/c/b'' \<mapsto> [''hash'' \<mapsto> ''2'']],
       exclude_patterns = EXCLUDE_PATTERNS, default_policy = OVERWRITE,
       specific_policies = Map.empty\<rparr>"
  let ?w = "\<lparr>nodes = [([''c'', ''a''], File ''1''), ([''c'', ''b''], File ''2''),
                ([''t'', ''b''], File ''old'')],
       denied = {}, state_file = Some [''/c/b'' \<mapsto> [''hash'' \<mapsto> ''0'']],
       stdin = [True, False]\<rparr>"
  let ?fs = "[[''c'', ''a''], [''c'', ''b'']]"
  let ?ts = "[[''t'', ''a''], [''t'', ''b'']]"
  let ?tmps = "[[''t'', ''a.tmp_sync''], [''t'', ''b.tmp_sync'']]"
  have a: "target_files_of ?s ?fs = Inr ?ts" by (simp add: relative_to_def)
  have b: "tmp_target_files_of ?ts = Inr ?tmps" by (simp add: with_tmp_suffix_def)
  have n: "(1::nat) < length ?fs" by simp
  have nf: "\<not> False" by simp
  have d1: "stdin (snd (stage_files ?s False (take 1 (zip ?fs (zip ?ts ?tmps)))
                 (map_of (map (\<lambda>f. (path_str f, False)) ?fs)) ?w)) = False # []"
    by (simp add: run_defs prompt_for_confirmation_def)
  have dec: "\<forall>m<length ?fs. path_str (?fs ! m) = path_str (?fs ! 1) \<longrightarrow>
                (\<exists>rest. stdin (snd (stage_files ?s False (take m (zip ?fs (zip ?ts ?tmps)))
                           (map_of (map (\<lambda>f. (path_str f, False)) ?fs)) ?w)) = False # rest)"
  proof (intro allI impI)
    fix m assume "m < length ?fs" and e: "path_str (?fs ! m) = path_str (?fs ! 1)"
    then have "m = 0 \<or> m = 1" by auto
    moreover have "path_str (?fs ! 0) \<noteq> path_str (?fs ! 1)" by (simp add: path_str_def)
    ultimately have "m = 1" using e by auto
    then show "\<exists>rest. stdin (snd (stage_files ?s False (take m (zip ?fs (zip ?ts ?tmps)))
                           (map_of (map (\<lambda>f. (path_str f, False)) ?fs)) ?w)) = False # rest"
      using d1 by blast
  qed
  have "\<exists>synced. fst (stage_files ?s False (zip ?fs (zip ?ts ?tmps))
                 (map_of (map (\<lambda>f. (path_str f, False)) ?fs)) ?w) = Inr synced
          \<and> synced ''/c/a'' = Some True"
    by (simp add: run_defs prompt_for_confirmation_def)
  then obtain synced where
    st: "fst (stage_files ?s False (zip ?fs (zip ?ts ?tmps))
                 (map_of (map (\<lambda>f. (path_str f, False)) ?fs)) ?w) = Inr synced"
    and sa: "synced ''/c/a'' = Some True" by blast
  have pr: "fst (promote_files (zip ?ts ?tmps)
                 (snd (stage_files ?s False (zip ?fs (zip ?ts ?tmps))
                         (map_of (map (\<lambda>f. (path_str f, False)) ?fs)) ?w))) = Inr ()"
    by (simp add: run_defs prompt_for_confirmation_def)
  have en: "\<forall>f\<in>set ?fs. synced (path_str f) = Some True \<longrightarrow> sync_state ?s (path_str f) \<noteq> None"
    by (simp add: path_str_def)
  have ret: "fst (sync ?s ?fs False ?w) = Inr 0"
    by (simp add: run_defs prompt_for_confirmation_def)
  from declined_file_is_left_out_of_persisted_state[OF a b n nf dec st pr en ret]
  obtain s' w' updated where
    r: "sync ?s ?fs False ?w = (Inr 0, s', w')"
    and lk: "\<forall>j. updated j = (if j \<in> path_str ` {f \<in> set ?fs. synced (path_str f) = Some True}
                               then sync_state ?s j else None)"
    and sf: "state_file w' = Some (load_sync_state ?w ++ updated)"
    and kb: "(load_sync_state ?w ++ updated) (path_str (?fs ! 1))
               = load_sync_state ?w (path_str (?fs ! 1))"
    by blast
  have p: "path_str [''c'', ''a''] = ''/c/a''" by (simp add: path_str_def)
  have pb: "path_str (?fs ! 1) = ''/c/b''" by (simp add: path_str_def)
  have "[''c'', ''a''] \<in> {f \<in> set ?fs. synced (path_str f) = Some True}"
    using sa p by simp
  then have "path_str [''c'', ''a''] \<in> path_str ` {f \<in> set ?fs. synced (path_str f) = Some True}"
    by (rule imageI)
  then have "updated (path_str [''c'', ''a'']) = sync_state ?s (path_str [''c'', ''a''])"
    using lk by presburger
  then have "updated ''/c/a'' = Some [''hash'' \<mapsto> ''1'']" unfolding p by simp
  then have ka: "(load_sync_state ?w ++ updated) ''/c/a'' = Some [''hash'' \<mapsto> ''1'']"
    by (simp add: map_add_def)
  have "load_sync_state ?w ''/c/b'' = Some [''hash'' \<mapsto> ''0'']"
    by (simp add: load_sync_state_def)
  then show ?thesis using r sf ka kb unfolding pb by simp
qed




end
